theory Spec2Isabelle
  imports Main
begin

section \<open>Python values and built-ins used by the two scripts\<close>

text \<open>
  Both scripts work on values produced by \<^verbatim>\<open>json.loads\<close>: \<^verbatim>\<open>None\<close>, booleans,
  integers, strings, lists and dictionaries. Numbers with a fraction or an exponent
  (Python floats) do not occur in the fields the scripts read and are not part of the
  model. A Python \<^verbatim>\<open>str\<close> is a \<open>string\<close>; the model covers the code points below 256.
  A dictionary is an association list in insertion order; a key is looked up with
  \<open>map_of\<close>.
\<close>

datatype json =
    JNull
  | JBool bool
  | JInt int
  | JStr string
  | JArr "json list"
  | JObj "(string \<times> json) list"

datatype exn =
    CalledProcessError
  | JSONDecodeError
  | KeyError
  | TypeError
  | AttributeError
  | ValueError
  | FileNotFoundError
  | OSError
  | UnicodeDecodeError
  | RecursionError

text \<open>
  The result of a Python call: it returns a value, raises an exception derived from
  \<^verbatim>\<open>Exception\<close>, or raises \<^verbatim>\<open>SystemExit\<close> (from \<^verbatim>\<open>sys.exit\<close>), which is not
  derived from \<^verbatim>\<open>Exception\<close> and passes every \<^verbatim>\<open>except Exception\<close> handler.
\<close>

datatype 'a outcome = Returned 'a | Raised exn | SysExit nat

definition ebind :: "exn + 'a \<Rightarrow> ('a \<Rightarrow> exn + 'b) \<Rightarrow> exn + 'b" where
  "ebind m f = (case m of Inl e \<Rightarrow> Inl e | Inr x \<Rightarrow> f x)"

text \<open>\<^verbatim>\<open>bool(v)\<close>, the test of \<^verbatim>\<open>if v:\<close>.\<close>

fun truthy :: "json \<Rightarrow> bool" where
  "truthy JNull = False"
| "truthy (JBool b) = b"
| "truthy (JInt i) = (i \<noteq> 0)"
| "truthy (JStr s) = (s \<noteq> [])"
| "truthy (JArr xs) = (xs \<noteq> [])"
| "truthy (JObj kvs) = (kvs \<noteq> [])"

text \<open>\<^verbatim>\<open>d.get(key, default)\<close>: only a dictionary has the method.\<close>

fun py_get :: "json \<Rightarrow> string \<Rightarrow> json \<Rightarrow> exn + json" where
  "py_get (JObj kvs) k d = Inr (case map_of kvs k of None \<Rightarrow> d | Some v \<Rightarrow> v)"
| "py_get _ k d = Inl AttributeError"

text \<open>\<^verbatim>\<open>v[key]\<close> with a string key.\<close>

fun py_subscript :: "json \<Rightarrow> string \<Rightarrow> exn + json" where
  "py_subscript (JObj kvs) k = (case map_of kvs k of None \<Rightarrow> Inl KeyError | Some v \<Rightarrow> Inr v)"
| "py_subscript _ k = Inl TypeError"

fun starts_with :: "string \<Rightarrow> string \<Rightarrow> bool" where
  "starts_with [] s = True"
| "starts_with (p # ps) [] = False"
| "starts_with (p # ps) (c # cs) = (p = c \<and> starts_with ps cs)"

fun is_substr :: "string \<Rightarrow> string \<Rightarrow> bool" where
  "is_substr p [] = (p = [])"
| "is_substr p (c # cs) = (starts_with p (c # cs) \<or> is_substr p cs)"

text \<open>\<^verbatim>\<open>key in v\<close> with a string key.\<close>

fun py_in :: "string \<Rightarrow> json \<Rightarrow> exn + bool" where
  "py_in k (JObj kvs) = Inr (k \<in> set (map fst kvs))"
| "py_in k (JArr xs) = Inr (JStr k \<in> set xs)"
| "py_in k (JStr s) = Inr (is_substr k s)"
| "py_in k _ = Inl TypeError"

text \<open>The items a \<^verbatim>\<open>for\<close> loop takes from a value.\<close>

fun py_iter :: "json \<Rightarrow> exn + json list" where
  "py_iter (JArr xs) = Inr xs"
| "py_iter (JObj kvs) = Inr (map (\<lambda>kv. JStr (fst kv)) kvs)"
| "py_iter (JStr s) = Inr (map (\<lambda>c. JStr [c]) s)"
| "py_iter _ = Inl TypeError"

subsection \<open>Decimal rendering: \<^verbatim>\<open>str\<close> of an integer\<close>

definition digit_char :: "nat \<Rightarrow> char" where
  "digit_char d = ''0123456789'' ! d"

function str_nat :: "nat \<Rightarrow> string" where
  "str_nat n = (if n < 10 then [digit_char n] else str_nat (n div 10) @ [digit_char (n mod 10)])"
  by pat_completeness auto
termination
  by (relation "measure id") auto

declare str_nat.simps [simp del]

definition str_int :: "int \<Rightarrow> string" where
  "str_int i = (if i < 0 then CHR ''-'' # str_nat (nat (- i)) else str_nat (nat i))"

subsection \<open>\<^verbatim>\<open>repr\<close> and \<^verbatim>\<open>str\<close>\<close>

definition hex_char :: "nat \<Rightarrow> char" where
  "hex_char d = ''0123456789abcdef'' ! d"

text \<open>
  Below 256 the characters \<^verbatim>\<open>repr\<close> leaves as they are: the ASCII range from the space
  to the tilde, and the Latin-1 range from 0xA1 on without the soft hyphen 0xAD.
\<close>

definition is_printable :: "char \<Rightarrow> bool" where
  "is_printable c =
     (let n = (of_char c :: nat)
      in (32 \<le> n \<and> n < 127) \<or> (161 \<le> n \<and> n \<noteq> 173))"

definition repr_char :: "char \<Rightarrow> char \<Rightarrow> string" where
  "repr_char q c =
     (if c = q \<or> c = CHR 0x5C then [CHR 0x5C, c]
      else if c = CHR 0x09 then [CHR 0x5C, CHR ''t'']
      else if c = CHR 0x0A then [CHR 0x5C, CHR ''n'']
      else if c = CHR 0x0D then [CHR 0x5C, CHR ''r'']
      else if is_printable c then [c]
      else [CHR 0x5C, CHR ''x'', hex_char ((of_char c :: nat) div 16),
            hex_char ((of_char c :: nat) mod 16)])"

definition repr_str :: "string \<Rightarrow> string" where
  "repr_str s =
     (let q = (if CHR 0x27 \<in> set s \<and> CHR 0x22 \<notin> set s then CHR 0x22 else CHR 0x27)
      in [q] @ concat (map (repr_char q) s) @ [q])"

fun join :: "string \<Rightarrow> string list \<Rightarrow> string" where
  "join sep [] = []"
| "join sep [x] = x"
| "join sep (x # y # ys) = x @ sep @ join sep (y # ys)"

primrec py_repr :: "json \<Rightarrow> string" where
  "py_repr JNull = ''None''"
| "py_repr (JBool b) = (if b then ''True'' else ''False'')"
| "py_repr (JInt i) = str_int i"
| "py_repr (JStr s) = repr_str s"
| "py_repr (JArr xs) = ''['' @ join '', '' (map py_repr xs) @ '']''"
| "py_repr (JObj kvs) =
     ''{'' @ join '', '' (map (\<lambda>kr. repr_str (fst kr) @ '': '' @ snd kr)
                               (map (map_prod id py_repr) kvs)) @ ''}''"

fun py_str :: "json \<Rightarrow> string" where
  "py_str (JStr s) = s"
| "py_str v = py_repr v"

subsection \<open>Whitespace, \<^verbatim>\<open>strip\<close>, \<^verbatim>\<open>rstrip\<close>, \<^verbatim>\<open>split\<close>\<close>

text \<open>The characters below 256 for which \<^verbatim>\<open>str.isspace\<close> holds; \<^verbatim>\<open>strip()\<close> removes them.\<close>

definition is_space :: "char \<Rightarrow> bool" where
  "is_space c = (c \<in> set [CHR 0x09, CHR 0x0A, CHR 0x0B, CHR 0x0C, CHR 0x0D,
                          CHR 0x1C, CHR 0x1D, CHR 0x1E, CHR 0x1F, CHR 0x20,
                          CHR 0x85, CHR 0xA0])"

definition py_rstrip :: "(char \<Rightarrow> bool) \<Rightarrow> string \<Rightarrow> string" where
  "py_rstrip P s = rev (dropWhile P (rev s))"

definition py_strip :: "string \<Rightarrow> string" where
  "py_strip s = py_rstrip is_space (dropWhile is_space s)"

text \<open>\<^verbatim>\<open>s.split('\n')\<close>: always at least one piece.\<close>

fun split_nl :: "string \<Rightarrow> string list" where
  "split_nl [] = [[]]"
| "split_nl (c # cs) =
     (if c = CHR 0x0A then [] # split_nl cs
      else (case split_nl cs of [] \<Rightarrow> [[c]] | l # ls \<Rightarrow> (c # l) # ls))"

text \<open>
  Reading a file opened in text mode turns \<^verbatim>\<open>\r\n\<close> and a lone \<^verbatim>\<open>\r\<close> into
  \<^verbatim>\<open>\n\<close> (universal newlines).
\<close>

fun universal_newlines :: "string \<Rightarrow> string" where
  "universal_newlines [] = []"
| "universal_newlines [c] = (if c = CHR 0x0D then [CHR 0x0A] else [c])"
| "universal_newlines (c # d # cs) =
     (if c = CHR 0x0D \<and> d = CHR 0x0A then CHR 0x0A # universal_newlines cs
      else if c = CHR 0x0D then CHR 0x0A # universal_newlines (d # cs)
      else c # universal_newlines (d # cs))"

subsection \<open>\<^verbatim>\<open>int\<close> of a string\<close>

text \<open>
  \<^verbatim>\<open>int(s)\<close> in base 10: whitespace around, an optional sign, then decimal digits in
  which single underscores may separate digits. The whitespace \<^verbatim>\<open>int\<close> accepts is
  narrower than that of \<^verbatim>\<open>strip()\<close>: the separators 0x1C to 0x1F are not part of it.
  A string that is not of this form raises \<^verbatim>\<open>ValueError\<close>, here \<open>None\<close>.
  Integers are unbounded here: the limit CPython 3.11 puts on the number of digits of a
  conversion (4300 by default, \<^verbatim>\<open>ValueError\<close> beyond it, in \<^verbatim>\<open>int\<close> as in
  \<^verbatim>\<open>str\<close>) is not part of the model.
\<close>

definition is_int_space :: "char \<Rightarrow> bool" where
  "is_int_space c = (c \<in> set [CHR 0x09, CHR 0x0A, CHR 0x0B, CHR 0x0C, CHR 0x0D, CHR 0x20,
                              CHR 0x85, CHR 0xA0])"

definition is_digit :: "char \<Rightarrow> bool" where
  "is_digit c = (c \<in> set ''0123456789'')"

definition digit_val :: "char \<Rightarrow> nat" where
  "digit_val c = of_char c - 48"

fun scan_digits :: "string \<Rightarrow> char \<Rightarrow> nat \<Rightarrow> (nat \<times> string) option" where
  "scan_digits [] prev acc = (if prev = CHR ''_'' then None else Some (acc, []))"
| "scan_digits (c # cs) prev acc =
     (if is_digit c then scan_digits cs c (acc * 10 + digit_val c)
      else if c = CHR ''_'' then (if prev = CHR ''_'' then None else scan_digits cs c acc)
      else if prev = CHR ''_'' then None
      else Some (acc, c # cs))"

definition parse_unsigned :: "string \<Rightarrow> nat option" where
  "parse_unsigned s =
     (case s of
        [] \<Rightarrow> None
      | c # cs \<Rightarrow>
          if is_digit c then
            (case scan_digits cs c (digit_val c) of
               None \<Rightarrow> None
             | Some (v, rest) \<Rightarrow> if dropWhile is_int_space rest = [] then Some v else None)
          else None)"

definition py_int :: "string \<Rightarrow> int option" where
  "py_int s =
     (case dropWhile is_int_space s of
        [] \<Rightarrow> None
      | c # cs \<Rightarrow>
          if c = CHR ''+'' then map_option int (parse_unsigned cs)
          else if c = CHR ''-'' then map_option (\<lambda>v. - int v) (parse_unsigned cs)
          else map_option int (parse_unsigned (c # cs)))"

section \<open>The external platform and the messages on the error stream\<close>

text \<open>
  What a call of the platform's command-line tool through \<^verbatim>\<open>subprocess.run(check=True)\<close>
  followed by \<^verbatim>\<open>json.loads\<close> of its output can give: the tool cannot be started, it exits
  with a non-zero status, its output is not JSON, or its output parses to a value.
\<close>

datatype run_result =
    Spawn_failed
  | NonZeroExit
  | Stdout_not_json
  | Stdout_json json

fun run_and_load :: "run_result \<Rightarrow> exn + json" where
  "run_and_load Spawn_failed = Inl OSError"
| "run_and_load NonZeroExit = Inl CalledProcessError"
| "run_and_load Stdout_not_json = Inl JSONDecodeError"
| "run_and_load (Stdout_json v) = Inr v"

text \<open>
  The lines printed to \<^verbatim>\<open>sys.stderr\<close>, by the format string that prints them; the
  text of an exception inside a line is left out, its class is kept.
\<close>

datatype msg =
    Error_getting_repository_ID
  | Error_parsing_repository_data
  | Error_executing_Azure_CLI_command
  | Error_parsing_JSON_response
  | Unexpected_error exn
  | Stderr_of_child
  | Fetching_PRs_for_user
  | Error_running_get_user_prs
  | Error_user_prs_not_found
  | Found_PRs_to_process nat
  | Processing_PR string nat nat
  | Warning_failed_to_get_comments string exn
  | Successfully_saved nat
  | Total_comments_in_file nat
  | Deleted_temporary_file
  | Warning_could_not_delete
  | Traceback exn

section \<open>PR Lister (get_user_prs.py)\<close>

text \<open>The loop of \<^verbatim>\<open>get_user_completed_prs\<close> over the parsed list, with its accumulator.\<close>

fun collect_pr_ids :: "json list \<Rightarrow> string list \<Rightarrow> exn + string list" where
  "collect_pr_ids [] pr_ids = Inr pr_ids"
| "collect_pr_ids (pr # prs) pr_ids =
     ebind (py_get pr ''status'' (JStr []))
       (\<lambda>status.
          if status \<in> set [JStr ''active'', JStr ''completed''] then
            ebind (py_get pr ''pullRequestId'' JNull)
              (\<lambda>pr_id.
                 if truthy pr_id then collect_pr_ids prs (pr_ids @ [py_str pr_id])
                 else collect_pr_ids prs pr_ids)
          else collect_pr_ids prs pr_ids)"

definition get_user_completed_prs :: "run_result \<Rightarrow> msg list \<times> string list outcome" where
  "get_user_completed_prs r =
     (case ebind (run_and_load r)
             (\<lambda>prs_data. ebind (py_iter prs_data) (\<lambda>prs. collect_pr_ids prs [])) of
        Inr pr_ids \<Rightarrow> ([], Returned pr_ids)
      | Inl e \<Rightarrow>
          if e = CalledProcessError then
            ([Error_executing_Azure_CLI_command, Stderr_of_child], SysExit 1)
          else if e = JSONDecodeError then ([Error_parsing_JSON_response], SysExit 1)
          else ([Unexpected_error e], SysExit 1))"

text \<open>The text \<^verbatim>\<open>main\<close> of the lister writes: one line \<^verbatim>\<open><id>,\<close> per identifier.\<close>

definition write_pr_ids :: "string list \<Rightarrow> string" where
  "write_pr_ids pr_ids = concat (map (\<lambda>pr_id. pr_id @ [CHR '','', CHR 0x0A]) pr_ids)"

text \<open>
  The two files of a run. The output file is seen through what
  \<^verbatim>\<open>open(args.output, "r", encoding="utf-8")\<close> and \<^verbatim>\<open>json.load(f)\<close> make of it:
  \<^item> \<open>Absent\<close>: there is no file (\<^verbatim>\<open>FileNotFoundError\<close>);
  \<^item> \<open>Unreadable\<close>: the file cannot be opened or read (another \<^verbatim>\<open>OSError\<close>);
  \<^item> \<open>Undecodable\<close>: its bytes are not UTF-8, so reading it raises
    \<^verbatim>\<open>UnicodeDecodeError\<close>;
  \<^item> \<open>Too_deep\<close>: its text nests brackets deeper than the decoder can follow, so
    \<^verbatim>\<open>json.load\<close> raises \<^verbatim>\<open>RecursionError\<close>;
  \<^item> \<open>Not_json\<close>: its text is decoded and \<^verbatim>\<open>json.load\<close> rejects it with
    \<^verbatim>\<open>JSONDecodeError\<close>;
  \<^item> \<open>Holds v\<close>: \<^verbatim>\<open>json.load\<close> returns the document \<open>v\<close>.

  A file in one of the states \<open>Undecodable\<close>, \<open>Too_deep\<close> and \<open>Not_json\<close> is
  present and is not a JSON document Python can load. Opening a file for writing is taken
  to succeed.
\<close>

datatype file_content = Absent | Unreadable | Undecodable | Too_deep | Not_json | Holds json

record fs =
  user_prs_file :: "string option"
  output_file :: file_content

text \<open>
  The lister as a process, started with \<^verbatim>\<open>--output user_prs.json\<close>: its error stream, its
  exit status and the file system it leaves.
\<close>

definition lister_main :: "run_result \<Rightarrow> fs \<Rightarrow> msg list \<times> nat \<times> fs" where
  "lister_main r s =
     (case get_user_completed_prs r of
        (out, Returned pr_ids) \<Rightarrow> (out, 0, s\<lparr>user_prs_file := Some (write_pr_ids pr_ids)\<rparr>)
      | (out, Raised e) \<Rightarrow> (out @ [Traceback e], 1, s)
      | (out, SysExit c) \<Rightarrow> (out, c, s))"

section \<open>Comment Aggregator (get_pr_comments.py)\<close>

subsection \<open>Repository Resolver\<close>

text \<open>
  \<^verbatim>\<open>get_repository_id\<close>, from the answer of \<^verbatim>\<open>az repos show\<close>. A failing call and
  an answer that is not JSON or has no key \<^verbatim>\<open>id\<close> end in \<^verbatim>\<open>sys.exit(1)\<close>; any other
  exception leaves the function, which has no handler for it.
\<close>

definition get_repository_id :: "run_result \<Rightarrow> msg list \<times> json outcome" where
  "get_repository_id r =
     (case ebind (run_and_load r) (\<lambda>repo_data. py_subscript repo_data ''id'') of
        Inr repo_id \<Rightarrow> ([], Returned repo_id)
      | Inl e \<Rightarrow>
          if e = CalledProcessError then
            ([Error_getting_repository_ID, Stderr_of_child], SysExit 1)
          else if e = JSONDecodeError \<or> e = KeyError then
            ([Error_parsing_repository_data], SysExit 1)
          else ([], Raised e))"

subsection \<open>Comment Fetcher\<close>

text \<open>The inner loop of \<^verbatim>\<open>get_pr_comments\<close>: the comments of one thread.\<close>

fun scan_comments :: "json list \<Rightarrow> json list \<Rightarrow> exn + json list" where
  "scan_comments [] comments = Inr comments"
| "scan_comments (comment # rest) comments =
     ebind (py_get comment ''author'' (JObj []))
       (\<lambda>a. ebind (py_get a ''displayName'' (JStr ''Unknown''))
       (\<lambda>author. ebind (py_get comment ''content'' (JStr []))
       (\<lambda>content. ebind (py_get comment ''publishedDate'' (JStr []))
       (\<lambda>published_date. ebind (py_get comment ''commentType'' (JStr []))
       (\<lambda>comment_type.
          if truthy content \<and> comment_type \<noteq> JStr ''system'' then
            scan_comments rest
              (comments @ [JObj [(''reviewer_name'', author), (''comment'', content),
                                 (''date'', published_date)]])
          else scan_comments rest comments)))))"

text \<open>The outer loop: the threads of the answer.\<close>

fun scan_threads :: "json list \<Rightarrow> json list \<Rightarrow> exn + json list" where
  "scan_threads [] comments = Inr comments"
| "scan_threads (thread # rest) comments =
     ebind (py_in ''comments'' thread)
       (\<lambda>present.
          if present then
            ebind (py_subscript thread ''comments'')
              (\<lambda>cs. ebind (py_iter cs)
              (\<lambda>items. ebind (scan_comments items comments)
              (\<lambda>comments'. scan_threads rest comments')))
          else scan_threads rest comments)"

text \<open>The three handlers of \<^verbatim>\<open>get_pr_comments\<close>: each prints and calls \<^verbatim>\<open>sys.exit(1)\<close>.\<close>

definition fetch_handlers :: "exn \<Rightarrow> msg list \<times> json list outcome" where
  "fetch_handlers e =
     (if e = CalledProcessError then
        ([Error_executing_Azure_CLI_command, Stderr_of_child], SysExit 1)
      else if e = JSONDecodeError then ([Error_parsing_JSON_response], SysExit 1)
      else ([Unexpected_error e], SysExit 1))"

text \<open>
  \<^verbatim>\<open>get_pr_comments\<close>, from the answers of \<^verbatim>\<open>az repos show\<close> and of the thread
  listing. The repository identifier and the pull request number only enter the address
  of the second call; its answer is an argument here.
\<close>

definition get_pr_comments :: "run_result \<Rightarrow> run_result \<Rightarrow> msg list \<times> json list outcome" where
  "get_pr_comments repo_answer threads_answer =
     (case get_repository_id repo_answer of
        (out, SysExit c) \<Rightarrow> (out, SysExit c)
      | (out, Raised e) \<Rightarrow> (out @ fst (fetch_handlers e), snd (fetch_handlers e))
      | (out, Returned repo_id) \<Rightarrow>
          (case ebind (run_and_load threads_answer)
                  (\<lambda>response_data. ebind (py_get response_data ''value'' (JArr []))
                  (\<lambda>threads_data. ebind (py_iter threads_data)
                  (\<lambda>threads. scan_threads threads []))) of
             Inr comments \<Rightarrow> (out, Returned comments)
           | Inl e \<Rightarrow> (out @ fst (fetch_handlers e), snd (fetch_handlers e))))"

subsection \<open>Aggregation Driver\<close>

text \<open>
  What the platform and the operating system answer during one run: the answer to the
  lister's query, and for the \<open>i\<close>-th identifier processed (counted from 1, as
  \<^verbatim>\<open>enumerate(pr_ids, 1)\<close> does) the answers to the repository query and to the thread
  query for the pull request number asked; whether removing the intermediate file fails.
\<close>

record env =
  pr_list_answer :: run_result
  repos_show_answer :: "nat \<Rightarrow> run_result"
  threads_answer :: "nat \<Rightarrow> int \<Rightarrow> run_result"
  remove_fails :: bool

text \<open>Step 2: the identifiers in the text of the intermediate file.\<close>

definition parse_pr_ids :: "string \<Rightarrow> string list" where
  "parse_pr_ids pr_ids_text =
     map (\<lambda>line. py_rstrip (\<lambda>c. c = CHR '','') (py_strip line))
         (filter (\<lambda>line. py_strip line \<noteq> []) (split_nl (py_strip pr_ids_text)))"

text \<open>
  Step 3: the value bound to \<^verbatim>\<open>existing_comments\<close>. The two handlers take
  \<^verbatim>\<open>FileNotFoundError\<close> and \<^verbatim>\<open>JSONDecodeError\<close> and nothing else:
  \<^verbatim>\<open>UnicodeDecodeError\<close> is a \<^verbatim>\<open>ValueError\<close> but not a \<^verbatim>\<open>JSONDecodeError\<close>, and
  \<^verbatim>\<open>RecursionError\<close> is a \<^verbatim>\<open>RuntimeError\<close>. Any other exception leaves \<^verbatim>\<open>main\<close>.
\<close>

fun load_existing :: "file_content \<Rightarrow> exn + json" where
  "load_existing Absent = Inr (JArr [])"
| "load_existing Not_json = Inr (JArr [])"
| "load_existing Unreadable = Inl OSError"
| "load_existing Undecodable = Inl UnicodeDecodeError"
| "load_existing Too_deep = Inl RecursionError"
| "load_existing (Holds v) = Inr v"

text \<open>
  Step 4: the loop over the identifiers. \<open>n\<close> is \<^verbatim>\<open>len(pr_ids)\<close>, \<open>i\<close> the counter of
  \<^verbatim>\<open>enumerate\<close>, \<open>new\<close> the list \<^verbatim>\<open>all_new_comments\<close>. The handler
  \<^verbatim>\<open>except Exception\<close> takes a \<open>Raised\<close> outcome and nothing else.
\<close>

fun fetch_loop :: "env \<Rightarrow> nat \<Rightarrow> nat \<Rightarrow> string list \<Rightarrow> json list \<Rightarrow> msg list \<times> json list outcome" where
  "fetch_loop e n i [] new = ([], Returned new)"
| "fetch_loop e n i (pr_id # rest) new =
     (case (case py_int pr_id of
              None \<Rightarrow> ([], Raised ValueError)
            | Some k \<Rightarrow> get_pr_comments (repos_show_answer e i) (threads_answer e i k)) of
        (out, Returned comments) \<Rightarrow>
          (case fetch_loop e n (Suc i) rest (new @ comments) of
             (out', r) \<Rightarrow> (Processing_PR pr_id i n # out @ out', r))
      | (out, Raised ex) \<Rightarrow>
          (case fetch_loop e n (Suc i) rest new of
             (out', r) \<Rightarrow>
               (Processing_PR pr_id i n # out @ Warning_failed_to_get_comments pr_id ex # out', r))
      | (out, SysExit c) \<Rightarrow> (Processing_PR pr_id i n # out, SysExit c))"

text \<open>Step 5: \<^verbatim>\<open>existing_comments + all_new_comments\<close>; only a list can be added to a list.\<close>

fun py_add_list :: "json \<Rightarrow> json list \<Rightarrow> exn + json" where
  "py_add_list (JArr xs) ys = Inr (JArr (xs @ ys))"
| "py_add_list _ ys = Inl TypeError"

text \<open>\<^verbatim>\<open>len\<close> of a list.\<close>

fun py_len :: "json \<Rightarrow> nat" where
  "py_len (JArr xs) = length xs"
| "py_len _ = 0"

text \<open>Steps 5 to 7: concatenate, write the output file, remove the intermediate file.\<close>

definition write_and_cleanup :: "env \<Rightarrow> fs \<Rightarrow> json \<Rightarrow> json list \<Rightarrow> msg list \<times> nat \<times> fs" where
  "write_and_cleanup e s existing_comments all_new_comments =
     (case py_add_list existing_comments all_new_comments of
        Inl ex \<Rightarrow> ([Traceback ex], 1, s)
      | Inr all_comments \<Rightarrow>
          ([Successfully_saved (length all_new_comments),
            Total_comments_in_file (py_len all_comments)]
             @ (if remove_fails e then [Warning_could_not_delete] else [Deleted_temporary_file]),
           0,
           (if remove_fails e then s\<lparr>output_file := Holds all_comments\<rparr>
            else s\<lparr>output_file := Holds all_comments, user_prs_file := None\<rparr>)))"

text \<open>
  \<^verbatim>\<open>main\<close> of the aggregator: the lines on the error stream, the exit status of the
  process and the file system it leaves.
\<close>

definition main :: "env \<Rightarrow> fs \<Rightarrow> msg list \<times> nat \<times> fs" where
  "main e s =
     (case lister_main (pr_list_answer e) s of
        (lister_err, status, s1) \<Rightarrow>
          if status \<noteq> 0 then
            ([Fetching_PRs_for_user, Error_running_get_user_prs, Stderr_of_child], 1, s1)
          else
            (case user_prs_file s1 of
               None \<Rightarrow> ([Fetching_PRs_for_user, Error_user_prs_not_found], 1, s1)
             | Some written \<Rightarrow>
                 (let pr_ids = parse_pr_ids (universal_newlines written);
                      head = [Fetching_PRs_for_user, Found_PRs_to_process (length pr_ids)]
                  in (case load_existing (output_file s1) of
                        Inl ex \<Rightarrow> (head @ [Traceback ex], 1, s1)
                      | Inr existing_comments \<Rightarrow>
                          (case fetch_loop e (length pr_ids) 1 pr_ids [] of
                             (out, SysExit c) \<Rightarrow> (head @ out, c, s1)
                           | (out, Raised ex) \<Rightarrow> (head @ out @ [Traceback ex], 1, s1)
                           | (out, Returned all_new_comments) \<Rightarrow>
                               (case write_and_cleanup e s1 existing_comments all_new_comments of
                                  (out', status', s2) \<Rightarrow> (head @ out @ out', status', s2)))))))"

section \<open>Notions the statements use\<close>

text \<open>A JSON object, and the value an object holds under a key.\<close>

fun is_object :: "json \<Rightarrow> bool" where
  "is_object (JObj kvs) = True"
| "is_object _ = False"

fun field :: "json \<Rightarrow> string \<Rightarrow> json option" where
  "field (JObj kvs) k = map_of kvs k"
| "field _ k = None"

text \<open>The status of a pull request object is exactly "active" or "completed".\<close>

definition status_listed :: "json \<Rightarrow> bool" where
  "status_listed pr =
     (field pr ''status'' = Some (JStr ''active'') \<or> field pr ''status'' = Some (JStr ''completed''))"

text \<open>The identifier of a pull request object is present and truthy (not null, not 0).\<close>

definition id_truthy :: "json \<Rightarrow> bool" where
  "id_truthy pr = (case field pr ''pullRequestId'' of None \<Rightarrow> False | Some v \<Rightarrow> truthy v)"

text \<open>The text written for the identifier of a pull request object.\<close>

definition id_text :: "json \<Rightarrow> string" where
  "id_text pr = (case field pr ''pullRequestId'' of None \<Rightarrow> [] | Some v \<Rightarrow> py_str v)"

text \<open>
  A pull request object as the platform describes it: an object whose identifier, when it
  has one, is an integer or null.
\<close>

definition pr_object :: "json \<Rightarrow> bool" where
  "pr_object pr =
     (is_object pr \<and>
      (case field pr ''pullRequestId'' of
         None \<Rightarrow> True | Some JNull \<Rightarrow> True | Some (JInt n) \<Rightarrow> True | Some _ \<Rightarrow> False))"

text \<open>The identifiers of the \<open>Processing_PR\<close> lines of an error stream, in order.\<close>

fun processed :: "msg list \<Rightarrow> string list" where
  "processed [] = []"
| "processed (Processing_PR pr_id i n # ms) = pr_id # processed ms"
| "processed (m # ms) = processed ms"

text \<open>
  An identifier text the intermediate file keeps as it is: not empty, without whitespace
  and without a comma.
\<close>

definition tidy :: "string \<Rightarrow> bool" where
  "tidy s = (s \<noteq> [] \<and> (\<forall>c \<in> set s. \<not> is_space c \<and> c \<noteq> CHR '',''))"

text \<open>The lines of the intermediate file, and its text without the last newline.\<close>

definition id_lines :: "string list \<Rightarrow> string list" where
  "id_lines ids = map (\<lambda>pr_id. pr_id @ [CHR '','']) ids"

fun joined :: "string list \<Rightarrow> string" where
  "joined [] = []"
| "joined [x] = x @ [CHR '','']"
| "joined (x # y # ys) = x @ CHR '','' # CHR 0x0A # joined (y # ys)"

text \<open>The identifiers the lister writes for a list of pull request objects.\<close>

definition listed_ids :: "json list \<Rightarrow> string list" where
  "listed_ids prs = map id_text (filter (\<lambda>pr. status_listed pr \<and> id_truthy pr) prs)"

text \<open>The identifier of a pull request object when it is an integer other than 0.\<close>

definition nonzero_id :: "json \<Rightarrow> int option" where
  "nonzero_id pr =
     (case field pr ''pullRequestId'' of
        Some (JInt n) \<Rightarrow> if n = 0 then None else Some n
      | _ \<Rightarrow> None)"

text \<open>
  The pull request numbers the lister writes for a list of pull request objects: those of
  the objects whose status is listed and whose identifier is an integer other than 0, in
  the order of the list.
\<close>

definition listed_numbers :: "json list \<Rightarrow> int list" where
  "listed_numbers prs =
     List.map_filter (\<lambda>pr. if status_listed pr then nonzero_id pr else None) prs"

text \<open>
  The list \<^verbatim>\<open>pr_ids\<close> of a run of the aggregator: what it parses from the file the
  lister wrote; \<open>None\<close> when the lister fails.
\<close>

definition run_pr_ids :: "env \<Rightarrow> string list option" where
  "run_pr_ids e =
     (case snd (get_user_completed_prs (pr_list_answer e)) of
        Returned ids \<Rightarrow> Some (parse_pr_ids (universal_newlines (write_pr_ids ids)))
      | _ \<Rightarrow> None)"

subsection \<open>Comments and records\<close>

definition comments_of :: "json \<Rightarrow> json list" where
  "comments_of thread = (case field thread ''comments'' of Some (JArr cs) \<Rightarrow> cs | _ \<Rightarrow> [])"

definition reviewer_name_of :: "json \<Rightarrow> json" where
  "reviewer_name_of c =
     (case field c ''author'' of
        None \<Rightarrow> JStr ''Unknown''
      | Some a \<Rightarrow> (case field a ''displayName'' of None \<Rightarrow> JStr ''Unknown'' | Some n \<Rightarrow> n))"

definition content_of :: "json \<Rightarrow> json" where
  "content_of c = (case field c ''content'' of None \<Rightarrow> JStr [] | Some v \<Rightarrow> v)"

definition date_of :: "json \<Rightarrow> json" where
  "date_of c = (case field c ''publishedDate'' of None \<Rightarrow> JStr [] | Some v \<Rightarrow> v)"

definition is_system :: "json \<Rightarrow> bool" where
  "is_system c = (field c ''commentType'' = Some (JStr ''system''))"

text \<open>A comment is kept: its content is not empty and its type is not "system".\<close>

definition qualifies :: "json \<Rightarrow> bool" where
  "qualifies c = (truthy (content_of c) \<and> \<not> is_system c)"

definition comment_record :: "json \<Rightarrow> json" where
  "comment_record c =
     JObj [(''reviewer_name'', reviewer_name_of c), (''comment'', content_of c),
           (''date'', date_of c)]"

definition thread_records :: "json \<Rightarrow> json list" where
  "thread_records thread = map comment_record (filter qualifies (comments_of thread))"

text \<open>
  Comments and threads as the platform describes them: a comment is an object whose
  author, when it has one, is an object; a thread is an object whose comments, when it
  has the key, are a list of comments.
\<close>

definition comment_object :: "json \<Rightarrow> bool" where
  "comment_object c =
     (is_object c \<and> (case field c ''author'' of None \<Rightarrow> True | Some a \<Rightarrow> is_object a))"

definition thread_object :: "json \<Rightarrow> bool" where
  "thread_object t =
     (is_object t \<and>
      (case field t ''comments'' of
         None \<Rightarrow> True
       | Some (JArr cs) \<Rightarrow> list_all comment_object cs
       | Some _ \<Rightarrow> False))"

subsection \<open>The records of a run\<close>

text \<open>
  What \<^verbatim>\<open>get_pr_comments(args.repository, k)\<close> gives when it is called in the \<open>i\<close>-th
  iteration of the loop for the pull request number \<open>k\<close>.
\<close>

definition fetched :: "env \<Rightarrow> nat \<Rightarrow> int \<Rightarrow> json list outcome" where
  "fetched e i k = snd (get_pr_comments (repos_show_answer e i) (threads_answer e i k))"

text \<open>
  The records fetched for the \<open>i\<close>-th identifier, and the records of a whole run in
  processing order.
\<close>

definition pr_records :: "env \<Rightarrow> nat \<Rightarrow> string \<Rightarrow> json list" where
  "pr_records e i pr_id =
     (case py_int pr_id of
        None \<Rightarrow> []
      | Some k \<Rightarrow>
          (case snd (get_pr_comments (repos_show_answer e i) (threads_answer e i k)) of
             Returned cs \<Rightarrow> cs
           | _ \<Rightarrow> []))"

fun records_from :: "env \<Rightarrow> nat \<Rightarrow> string list \<Rightarrow> json list" where
  "records_from e i [] = []"
| "records_from e i (pr_id # rest) = pr_records e i pr_id @ records_from e (Suc i) rest"

definition new_records :: "env \<Rightarrow> string list \<Rightarrow> json list" where
  "new_records e ids = records_from e 1 ids"

text \<open>One iteration of the loop, by what the fetch for the identifier gives.\<close>

definition attempt :: "env \<Rightarrow> nat \<Rightarrow> string \<Rightarrow> msg list \<times> json list outcome" where
  "attempt e i pr_id =
     (case py_int pr_id of
        None \<Rightarrow> ([], Raised ValueError)
      | Some k \<Rightarrow> get_pr_comments (repos_show_answer e i) (threads_answer e i k))"

text \<open>The fetch for the \<open>i\<close>-th identifier does not end the process.\<close>

definition fetch_returns :: "env \<Rightarrow> nat \<Rightarrow> string \<Rightarrow> bool" where
  "fetch_returns e i pr_id =
     (case py_int pr_id of
        None \<Rightarrow> True
      | Some k \<Rightarrow>
          (case snd (get_pr_comments (repos_show_answer e i) (threads_answer e i k)) of
             Returned cs \<Rightarrow> True
           | _ \<Rightarrow> False))"

fun all_fetches_return :: "env \<Rightarrow> nat \<Rightarrow> string list \<Rightarrow> bool" where
  "all_fetches_return e i [] = True"
| "all_fetches_return e i (pr_id # rest) =
     (fetch_returns e i pr_id \<and> all_fetches_return e (Suc i) rest)"

subsection \<open>Failing repository resolution\<close>

text \<open>
  The call exits with a non-zero status, its output is not JSON, or the parsed answer
  has no field "id".
\<close>

fun resolution_fails :: "run_result \<Rightarrow> bool" where
  "resolution_fails NonZeroExit = True"
| "resolution_fails Stdout_not_json = True"
| "resolution_fails (Stdout_json v) = (field v ''id'' = None)"
| "resolution_fails Spawn_failed = False"

fun is_diagnostic :: "msg \<Rightarrow> bool" where
  "is_diagnostic Error_getting_repository_ID = True"
| "is_diagnostic Error_parsing_repository_data = True"
| "is_diagnostic (Unexpected_error ex) = True"
| "is_diagnostic _ = False"

text \<open>The number of records the output file holds.\<close>

fun record_count :: "file_content \<Rightarrow> nat" where
  "record_count (Holds (JArr xs)) = length xs"
| "record_count _ = 0"

subsection \<open>Small inputs for examples\<close>

definition pr_obj :: "json \<Rightarrow> string \<Rightarrow> json" where
  "pr_obj pr_id status = JObj [(''pullRequestId'', pr_id), (''status'', JStr status)]"

definition repo_found :: run_result where
  "repo_found = Stdout_json (JObj [(''id'', JStr ''r1'')])"

text \<open>A thread listing with one thread holding one comment of the given content.\<close>

definition one_comment :: "string \<Rightarrow> run_result" where
  "one_comment txt =
     Stdout_json (JObj [(''value'', JArr
       [JObj [(''comments'', JArr [JObj [(''content'', JStr txt)]])]])])"

definition record_of :: "string \<Rightarrow> json" where
  "record_of txt =
     JObj [(''reviewer_name'', JStr ''Unknown''), (''comment'', JStr txt), (''date'', JStr [])]"

definition fresh :: fs where
  "fresh = \<lparr>user_prs_file = None, output_file = Absent\<rparr>"

section \<open>Facts about the built-ins\<close>

lemma digit_char_in: "d < 10 \<Longrightarrow> digit_char d \<in> set ''0123456789''"
  unfolding digit_char_def by (rule nth_mem) simp

lemma str_nat_chars: "set (str_nat n) \<subseteq> set ''0123456789''"
proof (induction n rule: str_nat.induct)
  case (1 n)
  show ?case
  proof (cases "n < 10")
    case True
    then show ?thesis using digit_char_in [of n] by (subst str_nat.simps) simp
  next
    case False
    have "n mod 10 < 10" by simp
    then have "digit_char (n mod 10) \<in> set ''0123456789''" by (rule digit_char_in)
    with False 1 show ?thesis by (subst str_nat.simps) simp
  qed
qed

lemma str_nat_nonempty: "str_nat n \<noteq> []"
  by (subst str_nat.simps) simp

lemma str_int_chars: "set (str_int i) \<subseteq> set ''-0123456789''"
proof -
  have split: "set ''-0123456789'' = insert (CHR ''-'') (set ''0123456789'')" by simp
  show ?thesis
  proof (cases "i < 0")
    case True
    then have "set (str_int i) = insert (CHR ''-'') (set (str_nat (nat (- i))))"
      by (simp add: str_int_def)
    with str_nat_chars [of "nat (- i)"] show ?thesis unfolding split by blast
  next
    case False
    then have "set (str_int i) = set (str_nat (nat i))" by (simp add: str_int_def)
    with str_nat_chars [of "nat i"] show ?thesis unfolding split by blast
  qed
qed

lemma str_int_nonempty: "str_int i \<noteq> []"
  by (simp add: str_int_def str_nat_nonempty)

lemma tidy_str_int: "tidy (str_int i)"
proof -
  have "\<forall>c \<in> set ''-0123456789''. \<not> is_space c \<and> c \<noteq> CHR '',''"
    by (simp add: is_space_def)
  then show ?thesis
    using str_int_chars [of i] str_int_nonempty [of i] unfolding tidy_def by blast
qed

lemma is_space_nl: "is_space (CHR 0x0A)" by (simp add: is_space_def)
lemma is_space_cr: "is_space (CHR 0x0D)" by (simp add: is_space_def)
lemma not_space_comma: "\<not> is_space (CHR '','')" by (simp add: is_space_def)

lemma tidy_nonempty: "tidy s \<Longrightarrow> s \<noteq> []" by (simp add: tidy_def)
lemma tidy_no_nl: "tidy s \<Longrightarrow> CHR 0x0A \<notin> set s" using is_space_nl by (auto simp: tidy_def)
lemma tidy_no_cr: "tidy s \<Longrightarrow> CHR 0x0D \<notin> set s" using is_space_cr by (auto simp: tidy_def)
lemma tidy_hd: "tidy s \<Longrightarrow> \<not> is_space (hd s)" by (cases s) (simp_all add: tidy_def)
lemma tidy_last: "tidy s \<Longrightarrow> last s \<noteq> CHR '',''" using last_in_set [of s] by (auto simp: tidy_def)

lemma universal_newlines_id: "CHR 0x0D \<notin> set s \<Longrightarrow> universal_newlines s = s"
  by (induction s rule: universal_newlines.induct) auto

lemma split_nl_no_nl: "CHR 0x0A \<notin> set l \<Longrightarrow> split_nl l = [l]"
  by (induction l) auto

lemma split_nl_line: "CHR 0x0A \<notin> set l \<Longrightarrow> split_nl (l @ CHR 0x0A # rest) = l # split_nl rest"
  by (induction l) auto

lemma py_strip_id:
  assumes "s \<noteq> []" "\<not> is_space (hd s)" "\<not> is_space (last s)"
  shows "py_strip s = s"
proof -
  from assms have a: "dropWhile is_space s = s" by (cases s) simp_all
  from assms have "rev s \<noteq> []" "\<not> is_space (hd (rev s))" by (simp_all add: hd_rev)
  then have "dropWhile is_space (rev s) = rev s" by (cases "rev s") simp_all
  with a show ?thesis by (simp add: py_strip_def py_rstrip_def)
qed

lemma py_strip_trailing_nl:
  assumes "s \<noteq> []" "\<not> is_space (hd s)" "\<not> is_space (last s)"
  shows "py_strip (s @ [CHR 0x0A]) = s"
proof -
  from assms have a: "dropWhile is_space (s @ [CHR 0x0A]) = s @ [CHR 0x0A]" by (cases s) simp_all
  from assms have "rev s \<noteq> []" "\<not> is_space (hd (rev s))" by (simp_all add: hd_rev)
  then have "dropWhile is_space (rev s) = rev s" by (cases "rev s") simp_all
  with a show ?thesis by (simp add: py_strip_def py_rstrip_def is_space_nl)
qed


lemma tidy_line:
  assumes "tidy s"
  shows "py_strip (s @ [CHR '','']) = s @ [CHR '','']"
    and "py_rstrip (\<lambda>c. c = CHR '','') (s @ [CHR '','']) = s"
proof -
  from assms have ne: "s \<noteq> []" and h: "\<not> is_space (hd s)" and l: "last s \<noteq> CHR '',''"
    by (simp_all add: tidy_nonempty tidy_hd tidy_last)
  have "\<not> is_space (CHR '','')" by (rule not_space_comma)
  with ne h show "py_strip (s @ [CHR '','']) = s @ [CHR '','']"
    by (intro py_strip_id) simp_all
  from ne l have "dropWhile (\<lambda>c. c = CHR '','') (rev s) = rev s"
    by (cases "rev s") (simp_all add: last_rev [symmetric] hd_rev)
  then show "py_rstrip (\<lambda>c. c = CHR '','') (s @ [CHR '','']) = s"
    by (simp add: py_rstrip_def)
qed

lemma write_pr_ids_Cons:
  "write_pr_ids (x # xs) = x @ CHR '','' # CHR 0x0A # write_pr_ids xs"
  by (simp add: write_pr_ids_def)

lemma write_pr_ids_snoc:
  "write_pr_ids (xs @ [x]) = write_pr_ids xs @ x @ [CHR '','', CHR 0x0A]"
  by (simp add: write_pr_ids_def)

lemma write_pr_ids_joined: "ids \<noteq> [] \<Longrightarrow> write_pr_ids ids = joined ids @ [CHR 0x0A]"
  by (induction ids rule: joined.induct) (simp_all add: write_pr_ids_def)

lemma split_joined:
  "\<forall>s \<in> set ids. tidy s \<Longrightarrow> ids \<noteq> [] \<Longrightarrow> split_nl (joined ids) = id_lines ids"
proof (induction ids rule: joined.induct)
  case 1
  then show ?case by simp
next
  case (2 x)
  then have "CHR 0x0A \<notin> set (x @ [CHR '',''])" by (simp add: tidy_no_nl)
  then show ?case by (simp add: split_nl_no_nl id_lines_def)
next
  case (3 x y ys)
  then have "CHR 0x0A \<notin> set (x @ [CHR '',''])" by (simp add: tidy_no_nl)
  then have "split_nl ((x @ [CHR '','']) @ CHR 0x0A # joined (y # ys)) = (x @ [CHR '','']) # split_nl (joined (y # ys))"
    by (rule split_nl_line)
  with 3 show ?case by (simp add: id_lines_def)
qed

lemma joined_ends:
  "\<forall>s \<in> set ids. tidy s \<Longrightarrow> ids \<noteq> [] \<Longrightarrow>
   joined ids \<noteq> [] \<and> \<not> is_space (hd (joined ids)) \<and> \<not> is_space (last (joined ids))"
proof (induction ids rule: joined.induct)
  case 1
  then show ?case by simp
next
  case (2 x)
  then have "x \<noteq> []" "\<not> is_space (hd x)" by (simp_all add: tidy_nonempty tidy_hd)
  then show ?case by (cases x) (simp_all add: not_space_comma)
next
  case (3 x y ys)
  then have "joined (y # ys) \<noteq> []" "\<not> is_space (last (joined (y # ys)))" by simp_all
  moreover from 3 have "x \<noteq> []" "\<not> is_space (hd x)" by (simp_all add: tidy_nonempty tidy_hd)
  ultimately show ?case by (cases x) simp_all
qed

lemma write_pr_ids_no_cr:
  "\<forall>s \<in> set ids. tidy s \<Longrightarrow> CHR 0x0D \<notin> set (write_pr_ids ids)"
  by (auto simp: write_pr_ids_def dest: tidy_no_cr)

lemma parse_written_tidy:
  assumes "\<forall>s \<in> set ids. tidy s"
  shows "parse_pr_ids (universal_newlines (write_pr_ids ids)) = ids"
proof (cases "ids = []")
  case True
  then show ?thesis by (simp add: write_pr_ids_def parse_pr_ids_def py_strip_def py_rstrip_def)
next
  case False
  have u: "universal_newlines (write_pr_ids ids) = write_pr_ids ids"
    using assms by (intro universal_newlines_id write_pr_ids_no_cr)
  have "py_strip (write_pr_ids ids) = joined ids"
    using joined_ends [OF assms False] by (simp add: write_pr_ids_joined [OF False] py_strip_trailing_nl)
  then have s: "split_nl (py_strip (write_pr_ids ids)) = id_lines ids"
    using split_joined [OF assms False] by simp
  have keep: "filter (\<lambda>line. py_strip line \<noteq> []) (id_lines ids) = id_lines ids"
    using assms by (auto simp: id_lines_def tidy_line filter_id_conv)
  have "map (\<lambda>line. py_rstrip (\<lambda>c. c = CHR '','') (py_strip line)) (id_lines ids) = ids"
    using assms by (simp add: id_lines_def tidy_line map_idI comp_def)
  with u s keep show ?thesis by (simp add: parse_pr_ids_def)
qed


section \<open>Facts about the PR Lister\<close>

lemma is_objectE: "is_object v \<Longrightarrow> \<exists>kvs. v = JObj kvs"
  by (cases v) simp_all

lemma collect_step:
  assumes "is_object pr"
  shows "collect_pr_ids (pr # prs) acc =
           collect_pr_ids prs (if status_listed pr \<and> id_truthy pr then acc @ [id_text pr] else acc)"
proof -
  from assms obtain kvs where pr: "pr = JObj kvs" by (auto dest: is_objectE)
  show ?thesis
    by (auto simp add: pr ebind_def status_listed_def id_truthy_def id_text_def split: option.splits)
qed

lemma collect_pr_ids_objects:
  "\<forall>pr \<in> set prs. is_object pr \<Longrightarrow> collect_pr_ids prs acc = Inr (acc @ listed_ids prs)"
proof (induction prs arbitrary: acc)
  case Nil
  show ?case by (simp add: listed_ids_def)
next
  case (Cons pr prs)
  then have "is_object pr" and rest: "\<forall>p \<in> set prs. is_object p" by simp_all
  then show ?case
    using Cons.IH [OF rest] by (simp only: collect_step) (simp add: listed_ids_def)
qed

lemma get_user_completed_prs_objects:
  "\<forall>pr \<in> set prs. is_object pr \<Longrightarrow>
   get_user_completed_prs (Stdout_json (JArr prs)) = ([], Returned (listed_ids prs))"
  by (simp add: get_user_completed_prs_def ebind_def collect_pr_ids_objects)

lemma pr_object_id_text:
  assumes "pr_object pr" "id_truthy pr"
  shows "\<exists>n. nonzero_id pr = Some n \<and> id_text pr = str_int n"
  using assms
  by (auto simp: pr_object_def id_truthy_def nonzero_id_def id_text_def
           split: option.splits json.splits)

lemma pr_object_not_truthy:
  assumes "pr_object pr" "\<not> id_truthy pr"
  shows "nonzero_id pr = None"
  using assms
  by (auto simp: pr_object_def id_truthy_def nonzero_id_def split: option.splits json.splits)

lemma listed_ids_pr_objects:
  "\<forall>pr \<in> set prs. pr_object pr \<Longrightarrow>
   listed_ids prs =
     map str_int (List.map_filter (\<lambda>pr. if status_listed pr then nonzero_id pr else None) prs)"
proof (induction prs)
  case Nil
  show ?case by (simp add: listed_ids_def List.map_filter_simps)
next
  case (Cons pr prs)
  then have IH: "listed_ids prs =
     map str_int (List.map_filter (\<lambda>pr. if status_listed pr then nonzero_id pr else None) prs)"
    and p: "pr_object pr" by simp_all
  have step: "listed_ids (pr # prs) =
     (if status_listed pr \<and> id_truthy pr then id_text pr # listed_ids prs else listed_ids prs)"
    by (simp add: listed_ids_def)
  show ?case
  proof (cases "id_truthy pr")
    case True
    with pr_object_id_text [OF p] obtain n where "nonzero_id pr = Some n" "id_text pr = str_int n"
      by blast
    with True IH show ?thesis by (simp add: step List.map_filter_simps)
  next
    case False
    with pr_object_not_truthy [OF p] have "nonzero_id pr = None" by simp
    with False IH show ?thesis by (simp add: step List.map_filter_simps)
  qed
qed

lemma pr_object_is_object: "pr_object pr \<Longrightarrow> is_object pr"
  by (simp add: pr_object_def)


section \<open>Facts about the Comment Fetcher\<close>

lemma scan_comments_step:
  assumes "comment_object c"
  shows "scan_comments (c # rest) acc =
           scan_comments rest (if qualifies c then acc @ [comment_record c] else acc)"
proof -
  from assms obtain kvs where c: "c = JObj kvs"
    by (auto simp: comment_object_def dest: is_objectE)
  show ?thesis
  proof (cases "map_of kvs ''author''")
    case None
    then show ?thesis
      by (auto simp: c ebind_def qualifies_def comment_record_def reviewer_name_of_def
            content_of_def date_of_def is_system_def split: option.splits)
  next
    case (Some a)
    with assms c obtain avs where a: "a = JObj avs"
      by (auto simp: comment_object_def dest: is_objectE)
    from Some show ?thesis
      by (auto simp: c a ebind_def qualifies_def comment_record_def reviewer_name_of_def
            content_of_def date_of_def is_system_def split: option.splits)
  qed
qed

lemma scan_comments_objects:
  "list_all comment_object cs \<Longrightarrow>
   scan_comments cs acc = Inr (acc @ map comment_record (filter qualifies cs))"
proof (induction cs arbitrary: acc)
  case Nil
  show ?case by simp
next
  case (Cons c cs)
  then have "comment_object c" and rest: "list_all comment_object cs" by simp_all
  then show ?case using Cons.IH [OF rest] by (simp only: scan_comments_step) simp
qed

lemma scan_threads_step:
  assumes "thread_object t"
  shows "scan_threads (t # rest) acc = scan_threads rest (acc @ thread_records t)"
proof -
  from assms obtain kvs where t: "t = JObj kvs"
    by (auto simp: thread_object_def dest: is_objectE)
  show ?thesis
  proof (cases "map_of kvs ''comments''")
    case None
    then have "''comments'' \<notin> fst ` set kvs" by (simp add: map_of_eq_None_iff)
    with None show ?thesis
      by (simp add: t ebind_def thread_records_def comments_of_def)
  next
    case (Some v)
    with assms t obtain cs where v: "v = JArr cs" and cs: "list_all comment_object cs"
      by (auto simp: thread_object_def split: json.splits)
    from Some have "''comments'' \<in> fst ` set kvs"
      by (metis map_of_eq_None_iff option.distinct(1))
    with Some show ?thesis
      by (simp add: t v ebind_def thread_records_def comments_of_def scan_comments_objects [OF cs])
  qed
qed

lemma scan_threads_objects:
  "list_all thread_object ts \<Longrightarrow>
   scan_threads ts acc = Inr (acc @ concat (map thread_records ts))"
proof (induction ts arbitrary: acc)
  case Nil
  show ?case by simp
next
  case (Cons t ts)
  then have "thread_object t" and rest: "list_all thread_object ts" by simp_all
  then show ?case using Cons.IH [OF rest] by (simp only: scan_threads_step) simp
qed

lemma get_repository_id_out:
  "get_repository_id r = (out, Returned v) \<Longrightarrow> out = []"
  by (auto simp: get_repository_id_def split: sum.splits if_splits)


section \<open>Facts about the Aggregation Driver\<close>

lemma fetch_handlers_exit: "snd (fetch_handlers ex) = SysExit 1"
  by (simp add: fetch_handlers_def)

lemma get_repository_id_cases:
  "snd (get_repository_id r) = SysExit c \<Longrightarrow> c = 1"
  by (auto simp: get_repository_id_def split: sum.splits if_splits)

lemma get_pr_comments_not_raised: "snd (get_pr_comments a b) \<noteq> Raised ex"
  by (auto simp: get_pr_comments_def fetch_handlers_exit split: prod.splits outcome.splits sum.splits)

lemma get_pr_comments_exit: "snd (get_pr_comments a b) = SysExit c \<Longrightarrow> c = 1"
  using get_repository_id_cases [of a c]
  by (auto simp: get_pr_comments_def fetch_handlers_exit split: prod.splits outcome.splits sum.splits)

lemma processed_append: "processed (xs @ ys) = processed xs @ processed ys"
  by (induction xs rule: processed.induct) simp_all

lemma processed_fetch_handlers: "processed (fst (fetch_handlers ex)) = []"
  by (simp add: fetch_handlers_def)

lemma processed_get_repository_id: "processed (fst (get_repository_id r)) = []"
  by (auto simp: get_repository_id_def split: sum.splits)

lemma processed_get_pr_comments: "processed (fst (get_pr_comments a b)) = []"
  using processed_get_repository_id [of a]
  by (auto simp: get_pr_comments_def processed_append processed_fetch_handlers
           split: prod.splits outcome.splits sum.splits)

lemma fetch_loop_Cons:
  "fetch_loop e n i (pr_id # rest) new =
     (case attempt e i pr_id of
        (out, Returned comments) \<Rightarrow>
          (case fetch_loop e n (Suc i) rest (new @ comments) of
             (out', r) \<Rightarrow> (Processing_PR pr_id i n # out @ out', r))
      | (out, Raised ex) \<Rightarrow>
          (case fetch_loop e n (Suc i) rest new of
             (out', r) \<Rightarrow>
               (Processing_PR pr_id i n # out @ Warning_failed_to_get_comments pr_id ex # out', r))
      | (out, SysExit c) \<Rightarrow> (Processing_PR pr_id i n # out, SysExit c))"
  by (simp add: attempt_def)

lemma attempt_bad: "py_int pr_id = None \<Longrightarrow> attempt e i pr_id = ([], Raised ValueError)"
  by (simp add: attempt_def)

lemma attempt_raised: "snd (attempt e i pr_id) = Raised ex \<Longrightarrow> py_int pr_id = None \<and> ex = ValueError \<and> fst (attempt e i pr_id) = []"
  by (auto simp: attempt_def get_pr_comments_not_raised split: option.splits)

lemma attempt_exit: "snd (attempt e i pr_id) = SysExit c \<Longrightarrow> c = 1"
  by (auto simp: attempt_def dest: get_pr_comments_exit split: option.splits)

lemma attempt_returned:
  "snd (attempt e i pr_id) = Returned cs \<Longrightarrow> fetch_returns e i pr_id \<and> pr_records e i pr_id = cs"
  by (auto simp: attempt_def fetch_returns_def pr_records_def split: option.splits)

lemma attempt_raised_records:
  "snd (attempt e i pr_id) = Raised ex \<Longrightarrow> fetch_returns e i pr_id \<and> pr_records e i pr_id = []"
  by (auto simp: attempt_def fetch_returns_def pr_records_def get_pr_comments_not_raised split: option.splits)

lemma attempt_exit_not_returns:
  "snd (attempt e i pr_id) = SysExit c \<Longrightarrow> \<not> fetch_returns e i pr_id"
  by (auto simp: attempt_def fetch_returns_def split: option.splits)

lemma processed_attempt: "processed (fst (attempt e i pr_id)) = []"
  by (simp add: attempt_def processed_get_pr_comments split: option.splits)

declare fetch_loop.simps(2) [simp del]

lemma fetch_loop_snd:
  "snd (fetch_loop e n i (pr_id # rest) new) =
     (case snd (attempt e i pr_id) of
        Returned cs \<Rightarrow> snd (fetch_loop e n (Suc i) rest (new @ cs))
      | Raised ex \<Rightarrow> snd (fetch_loop e n (Suc i) rest new)
      | SysExit c \<Rightarrow> SysExit c)"
  by (simp add: fetch_loop_Cons split: prod.splits outcome.splits)

lemma fetch_loop_fst:
  "fst (fetch_loop e n i (pr_id # rest) new) =
     Processing_PR pr_id i n # fst (attempt e i pr_id) @
     (case snd (attempt e i pr_id) of
        Returned cs \<Rightarrow> fst (fetch_loop e n (Suc i) rest (new @ cs))
      | Raised ex \<Rightarrow>
          Warning_failed_to_get_comments pr_id ex # fst (fetch_loop e n (Suc i) rest new)
      | SysExit c \<Rightarrow> [])"
  by (simp add: fetch_loop_Cons split: prod.splits outcome.splits)

lemma fetch_loop_not_raised: "snd (fetch_loop e n i ids new) \<noteq> Raised ex"
  by (induction ids arbitrary: i new) (simp_all add: fetch_loop_snd split: outcome.splits)

lemma fetch_loop_exit: "snd (fetch_loop e n i ids new) = SysExit c \<Longrightarrow> c = 1"
proof (induction ids arbitrary: i new)
  case Nil
  then show ?case by simp
next
  case (Cons pr_id rest)
  from Cons.prems show ?case
    using Cons.IH [of "Suc i"] attempt_exit [of e i pr_id]
    by (auto simp: fetch_loop_snd split: outcome.splits)
qed

lemma fetch_loop_returned_iff:
  "(snd (fetch_loop e n i ids new) = Returned r) =
   (all_fetches_return e i ids \<and> r = new @ records_from e i ids)"
proof (induction ids arbitrary: i new)
  case Nil
  show ?case by auto
next
  case (Cons pr_id rest)
  show ?case
  proof (cases "snd (attempt e i pr_id)")
    case (Returned cs)
    with attempt_returned [of e i pr_id cs]
    have "fetch_returns e i pr_id" "pr_records e i pr_id = cs" by simp_all
    with Returned show ?thesis
      using Cons [of "Suc i" "new @ cs"] by (simp add: fetch_loop_snd)
  next
    case (Raised ex)
    with attempt_raised_records [of e i pr_id ex]
    have "fetch_returns e i pr_id" "pr_records e i pr_id = []" by simp_all
    with Raised show ?thesis
      using Cons [of "Suc i" new] by (simp add: fetch_loop_snd)
  next
    case (SysExit c)
    with attempt_exit_not_returns [of e i pr_id c]
    have "\<not> fetch_returns e i pr_id" by simp
    with SysExit show ?thesis by (simp add: fetch_loop_snd)
  qed
qed

lemma fetch_loop_processed_prefix:
  "\<exists>rest. ids = processed (fst (fetch_loop e n i ids new)) @ rest"
proof (induction ids arbitrary: i new)
  case Nil
  show ?case by simp
next
  case (Cons pr_id rest)
  show ?case
    using Cons [of "Suc i"]
    by (cases "snd (attempt e i pr_id)")
       (simp_all add: fetch_loop_fst processed_append processed_attempt)
qed

lemma fetch_loop_processed_all:
  "snd (fetch_loop e n i ids new) = Returned r \<Longrightarrow>
   processed (fst (fetch_loop e n i ids new)) = ids"
proof (induction ids arbitrary: i new)
  case Nil
  show ?case by simp
next
  case (Cons pr_id rest)
  from Cons.prems show ?case
    using Cons.IH [of "Suc i"]
    by (cases "snd (attempt e i pr_id)")
       (simp_all add: fetch_loop_fst fetch_loop_snd processed_append processed_attempt)
qed

lemma fetch_loop_warns:
  "pr_id \<in> set ids \<Longrightarrow> py_int pr_id = None \<Longrightarrow>
   snd (fetch_loop e n i ids new) = Returned r \<Longrightarrow>
   Warning_failed_to_get_comments pr_id ValueError \<in> set (fst (fetch_loop e n i ids new))"
proof (induction ids arbitrary: i new)
  case Nil
  then show ?case by simp
next
  case (Cons x rest)
  show ?case
  proof (cases "x = pr_id")
    case True
    with Cons.prems(2) show ?thesis by (simp add: fetch_loop_fst attempt_bad)
  next
    case False
    with Cons.prems have "pr_id \<in> set rest" by simp
    with Cons.prems(2,3) show ?thesis
      using Cons.IH [of "Suc i"]
      by (cases "snd (attempt e i x)") (simp_all add: fetch_loop_fst fetch_loop_snd)
  qed
qed

text \<open>The loop over a list that ends in a failing repository resolution.\<close>

lemma resolution_fails_exit:
  assumes "resolution_fails r"
  shows "snd (get_pr_comments r t) = SysExit 1 \<and> (\<exists>m \<in> set (fst (get_pr_comments r t)). is_diagnostic m)"
proof (cases r)
  case (Stdout_json v)
  with assms have f: "field v ''id'' = None" by simp
  show ?thesis
  proof (cases v)
    case (JObj kvs)
    with f Stdout_json show ?thesis
      by (simp add: get_pr_comments_def get_repository_id_def ebind_def)
  qed (simp_all add: Stdout_json get_pr_comments_def get_repository_id_def ebind_def fetch_handlers_def)
qed (use assms in \<open>simp_all add: get_pr_comments_def get_repository_id_def ebind_def\<close>)

lemma fetch_loop_append_snd:
  "snd (fetch_loop e n i pre new) = Returned new' \<Longrightarrow>
   snd (fetch_loop e n i (pre @ post) new) = snd (fetch_loop e n (i + length pre) post new')"
proof (induction pre arbitrary: i new)
  case Nil
  then show ?case by simp
next
  case (Cons x pre)
  from Cons.prems show ?case
    using Cons.IH [of "Suc i"]
    by (cases "snd (attempt e i x)") (simp_all add: fetch_loop_snd)
qed

lemma fetch_loop_append_fst:
  "snd (fetch_loop e n i pre new) = Returned new' \<Longrightarrow>
   fst (fetch_loop e n i (pre @ post) new) =
     fst (fetch_loop e n i pre new) @ fst (fetch_loop e n (i + length pre) post new')"
proof (induction pre arbitrary: i new)
  case Nil
  then show ?case by simp
next
  case (Cons x pre)
  from Cons.prems show ?case
    using Cons.IH [of "Suc i"]
    by (cases "snd (attempt e i x)") (simp_all add: fetch_loop_snd fetch_loop_fst)
qed

lemma fetch_loop_resolution_fails:
  assumes "snd (fetch_loop e n i pre new) = Returned new'"
    and "py_int pr_id = Some k"
    and "resolution_fails (repos_show_answer e (i + length pre))"
  shows "snd (fetch_loop e n i (pre @ pr_id # post) new) = SysExit 1"
    and "\<exists>m \<in> set (fst (fetch_loop e n i (pre @ pr_id # post) new)). is_diagnostic m"
proof -
  let ?j = "i + length pre"
  from assms(2) have at: "attempt e ?j pr_id =
      get_pr_comments (repos_show_answer e ?j) (threads_answer e ?j k)"
    by (simp add: attempt_def)
  from resolution_fails_exit [OF assms(3), of "threads_answer e ?j k"] at
  have ex: "snd (attempt e ?j pr_id) = SysExit 1"
    and d: "\<exists>m \<in> set (fst (attempt e ?j pr_id)). is_diagnostic m" by simp_all
  from ex show "snd (fetch_loop e n i (pre @ pr_id # post) new) = SysExit 1"
    by (simp add: fetch_loop_append_snd [OF assms(1)] fetch_loop_snd)
  from d ex show "\<exists>m \<in> set (fst (fetch_loop e n i (pre @ pr_id # post) new)). is_diagnostic m"
    by (auto simp: fetch_loop_append_fst [OF assms(1)] fetch_loop_fst)
qed


subsection \<open>A whole run\<close>

lemma get_user_completed_prs_returned:
  "snd (get_user_completed_prs r) = Returned ids \<Longrightarrow> get_user_completed_prs r = ([], Returned ids)"
  by (auto simp: get_user_completed_prs_def split: sum.splits if_splits)

lemma get_user_completed_prs_other:
  "(\<forall>ids. snd (get_user_completed_prs r) \<noteq> Returned ids) \<Longrightarrow> snd (get_user_completed_prs r) = SysExit 1"
  by (auto simp: get_user_completed_prs_def split: sum.splits if_splits)

lemma lister_main_ok:
  "snd (get_user_completed_prs r) = Returned ids \<Longrightarrow>
   lister_main r s = ([], 0, s\<lparr>user_prs_file := Some (write_pr_ids ids)\<rparr>)"
  by (simp add: lister_main_def get_user_completed_prs_returned)

lemma lister_main_fails:
  "\<forall>ids. snd (get_user_completed_prs r) \<noteq> Returned ids \<Longrightarrow>
   fst (snd (lister_main r s)) = 1 \<and> snd (snd (lister_main r s)) = s"
  using get_user_completed_prs_other [of r]
  by (cases "get_user_completed_prs r") (simp add: lister_main_def)

lemma run_pr_ids_SomeE:
  assumes "run_pr_ids e = Some ids"
  obtains written where "snd (get_user_completed_prs (pr_list_answer e)) = Returned written"
    and "parse_pr_ids (universal_newlines (write_pr_ids written)) = ids"
  using assms by (auto simp: run_pr_ids_def split: outcome.splits)

lemma run_pr_ids_None:
  "run_pr_ids e = None \<Longrightarrow> \<forall>ids. snd (get_user_completed_prs (pr_list_answer e)) \<noteq> Returned ids"
  by (auto simp: run_pr_ids_def split: outcome.splits)

lemma main_lister_fails:
  assumes "run_pr_ids e = None"
  shows "fst (snd (main e s)) = 1" and "snd (snd (main e s)) = s"
  using lister_main_fails [OF run_pr_ids_None [OF assms], of s]
  by (cases "lister_main (pr_list_answer e) s"; simp add: main_def)+

lemma main_load_fails:
  assumes "run_pr_ids e = Some ids"
    and "load_existing (output_file s) = Inl ex"
  shows "fst (snd (main e s)) = 1"
    and "output_file (snd (snd (main e s))) = output_file s"
proof -
  from assms(1) obtain written
    where w: "snd (get_user_completed_prs (pr_list_answer e)) = Returned written"
      and p: "parse_pr_ids (universal_newlines (write_pr_ids written)) = ids"
    by (rule run_pr_ids_SomeE)
  show "fst (snd (main e s)) = 1"
    by (simp add: main_def lister_main_ok [OF w] p Let_def assms(2))
  show "output_file (snd (snd (main e s))) = output_file s"
    by (simp add: main_def lister_main_ok [OF w] p Let_def assms(2))
qed

lemma main_exits:
  assumes "run_pr_ids e = Some ids"
    and "load_existing (output_file s) = Inr existing"
    and "snd (fetch_loop e (length ids) 1 ids []) = SysExit c"
  shows "fst (snd (main e s)) = c"
    and "output_file (snd (snd (main e s))) = output_file s"
    and "fst (main e s) =
           [Fetching_PRs_for_user, Found_PRs_to_process (length ids)]
             @ fst (fetch_loop e (length ids) 1 ids [])"
proof -
  from assms(1) obtain written
    where w: "snd (get_user_completed_prs (pr_list_answer e)) = Returned written"
      and p: "parse_pr_ids (universal_newlines (write_pr_ids written)) = ids"
    by (rule run_pr_ids_SomeE)
  obtain out where f: "fetch_loop e (length ids) 1 ids [] = (out, SysExit c)"
    using assms(3) by (cases "fetch_loop e (length ids) 1 ids []") simp
  have m: "main e s =
      ([Fetching_PRs_for_user, Found_PRs_to_process (length ids)] @ out, c,
       s\<lparr>user_prs_file := Some (write_pr_ids written)\<rparr>)"
    by (simp add: main_def lister_main_ok [OF w] p Let_def assms(2) f del: One_nat_def)
  show "fst (snd (main e s)) = c" by (simp add: m)
  show "output_file (snd (snd (main e s))) = output_file s" by (simp add: m)
  show "fst (main e s) =
           [Fetching_PRs_for_user, Found_PRs_to_process (length ids)]
             @ fst (fetch_loop e (length ids) 1 ids [])" by (simp add: m f del: One_nat_def)
qed

lemma main_completes:
  assumes "run_pr_ids e = Some ids"
    and "load_existing (output_file s) = Inr (JArr existing)"
    and "snd (fetch_loop e (length ids) 1 ids []) = Returned new"
  shows "fst (snd (main e s)) = 0"
    and "output_file (snd (snd (main e s))) = Holds (JArr (existing @ new))"
    and "fst (main e s) =
           [Fetching_PRs_for_user, Found_PRs_to_process (length ids)]
             @ fst (fetch_loop e (length ids) 1 ids [])
             @ [Successfully_saved (length new), Total_comments_in_file (length (existing @ new))]
             @ (if remove_fails e then [Warning_could_not_delete] else [Deleted_temporary_file])"
    and "user_prs_file (snd (snd (main e s))) =
           (if remove_fails e then user_prs_file (snd (snd (lister_main (pr_list_answer e) s)))
            else None)"
proof -
  from assms(1) obtain written
    where w: "snd (get_user_completed_prs (pr_list_answer e)) = Returned written"
      and p: "parse_pr_ids (universal_newlines (write_pr_ids written)) = ids"
    by (rule run_pr_ids_SomeE)
  obtain out where f: "fetch_loop e (length ids) 1 ids [] = (out, Returned new)"
    using assms(3) by (cases "fetch_loop e (length ids) 1 ids []") simp
  let ?s1 = "s\<lparr>user_prs_file := Some (write_pr_ids written)\<rparr>"
  have m: "main e s =
      ([Fetching_PRs_for_user, Found_PRs_to_process (length ids)] @ out
         @ [Successfully_saved (length new), Total_comments_in_file (length (existing @ new))]
         @ (if remove_fails e then [Warning_could_not_delete] else [Deleted_temporary_file]),
       0,
       (if remove_fails e then ?s1\<lparr>output_file := Holds (JArr (existing @ new))\<rparr>
        else ?s1\<lparr>output_file := Holds (JArr (existing @ new)), user_prs_file := None\<rparr>))"
    by (simp add: main_def lister_main_ok [OF w] p Let_def assms(2) f write_and_cleanup_def
             del: One_nat_def)
  show "fst (snd (main e s)) = 0" by (simp add: m)
  show "output_file (snd (snd (main e s))) = Holds (JArr (existing @ new))" by (simp add: m)
  show "fst (main e s) =
           [Fetching_PRs_for_user, Found_PRs_to_process (length ids)]
             @ fst (fetch_loop e (length ids) 1 ids [])
             @ [Successfully_saved (length new), Total_comments_in_file (length (existing @ new))]
             @ (if remove_fails e then [Warning_could_not_delete] else [Deleted_temporary_file])"
    by (simp add: m f del: One_nat_def)
  show "user_prs_file (snd (snd (main e s))) =
           (if remove_fails e then user_prs_file (snd (snd (lister_main (pr_list_answer e) s)))
            else None)"
    by (simp add: m lister_main_ok [OF w])
qed

lemma main_not_a_list:
  assumes "run_pr_ids e = Some ids"
    and "load_existing (output_file s) = Inr existing"
    and "\<forall>xs. existing \<noteq> JArr xs"
  shows "fst (snd (main e s)) = 1"
proof -
  from assms(1) obtain written
    where w: "snd (get_user_completed_prs (pr_list_answer e)) = Returned written"
      and p: "parse_pr_ids (universal_newlines (write_pr_ids written)) = ids"
    by (rule run_pr_ids_SomeE)
  from assms(3) have a: "\<And>new. py_add_list existing new = Inl TypeError"
    by (cases existing) simp_all
  obtain out r where f: "fetch_loop e (length ids) 1 ids [] = (out, r)"
    by (cases "fetch_loop e (length ids) 1 ids []")
  have "r = SysExit 1 \<or> (\<exists>new. r = Returned new)"
    using fetch_loop_not_raised [of e "length ids" 1 ids "[]"]
      fetch_loop_exit [of e "length ids" 1 ids "[]"] f
    by (cases r) auto
  then show ?thesis
    by (auto simp add: main_def lister_main_ok [OF w] p Let_def assms(2) f write_and_cleanup_def a
             simp del: One_nat_def)
qed

text \<open>A run that ends with status 0 went through every step.\<close>

lemma main_success:
  assumes "fst (snd (main e s)) = 0"
  obtains ids existing where "run_pr_ids e = Some ids"
    and "load_existing (output_file s) = Inr (JArr existing)"
    and "snd (fetch_loop e (length ids) 1 ids []) = Returned (new_records e ids)"
proof -
  from assms main_lister_fails(1) [of e s] obtain ids where r: "run_pr_ids e = Some ids"
    by (cases "run_pr_ids e") auto
  from assms main_load_fails(1) [OF r, of s] obtain ex where l: "load_existing (output_file s) = Inr ex"
    by (cases "load_existing (output_file s)") auto
  from assms main_not_a_list [OF r l] obtain existing where x: "ex = JArr existing"
    by (cases ex) auto
  have "snd (fetch_loop e (length ids) 1 ids []) \<noteq> SysExit c" for c
    using assms main_exits(1) [OF r l, of c] fetch_loop_exit [of e "length ids" 1 ids "[]" c]
    by auto
  then obtain new where n: "snd (fetch_loop e (length ids) 1 ids []) = Returned new"
    using fetch_loop_not_raised [of e "length ids" 1 ids "[]"]
    by (cases "snd (fetch_loop e (length ids) 1 ids [])") auto
  then have "new = new_records e ids"
    by (simp add: fetch_loop_returned_iff new_records_def)
  with r l x n show thesis by (auto intro: that)
qed


lemma tidy_listed_ids:
  assumes "\<forall>pr \<in> set prs. pr_object pr"
  shows "\<forall>s \<in> set (listed_ids prs). tidy s"
proof -
  have "listed_ids prs =
     map str_int (List.map_filter (\<lambda>pr. if status_listed pr then nonzero_id pr else None) prs)"
    using assms by (rule listed_ids_pr_objects)
  then show ?thesis by (auto simp: tidy_str_int)
qed

lemma run_pr_ids_tidy:
  assumes "snd (get_user_completed_prs (pr_list_answer e)) = Returned ids"
    and "\<forall>s \<in> set ids. tidy s"
  shows "run_pr_ids e = Some ids"
  using assms by (simp add: run_pr_ids_def parse_written_tidy)

lemma run_pr_ids_pr_objects:
  assumes "pr_list_answer e = Stdout_json (JArr prs)"
    and "\<forall>pr \<in> set prs. pr_object pr"
  shows "run_pr_ids e = Some (listed_ids prs)"
proof -
  from assms(2) have "\<forall>pr \<in> set prs. is_object pr" by (simp add: pr_object_is_object)
  then have "snd (get_user_completed_prs (pr_list_answer e)) = Returned (listed_ids prs)"
    by (simp add: assms(1) get_user_completed_prs_objects)
  then show ?thesis using tidy_listed_ids [OF assms(2)] by (rule run_pr_ids_tidy)
qed

lemma processed_main:
  assumes "run_pr_ids e = Some ids"
  shows "processed (fst (main e s)) =
           (case load_existing (output_file s) of
              Inl ex \<Rightarrow> []
            | Inr existing \<Rightarrow> processed (fst (fetch_loop e (length ids) 1 ids [])))"
proof -
  from assms obtain written
    where w: "snd (get_user_completed_prs (pr_list_answer e)) = Returned written"
      and p: "parse_pr_ids (universal_newlines (write_pr_ids written)) = ids"
    by (rule run_pr_ids_SomeE)
  show ?thesis
  proof (cases "load_existing (output_file s)")
    case (Inl ex)
    then show ?thesis by (simp add: main_def lister_main_ok [OF w] p Let_def)
  next
    case (Inr existing)
    obtain out r where f: "fetch_loop e (length ids) 1 ids [] = (out, r)"
      by (cases "fetch_loop e (length ids) 1 ids []")
    show ?thesis
    proof (cases r)
      case (Returned new)
      then show ?thesis
        by (cases "py_add_list existing new")
           (simp_all add: main_def lister_main_ok [OF w] p Let_def Inr f write_and_cleanup_def
              processed_append del: One_nat_def)
    qed (simp_all add: main_def lister_main_ok [OF w] p Let_def Inr f processed_append
           del: One_nat_def)
  qed
qed

lemma all_fetches_return_nth:
  "all_fetches_return e i ids = (\<forall>j < length ids. fetch_returns e (i + j) (ids ! j))"
proof (induction ids arbitrary: i)
  case Nil
  show ?case by simp
next
  case (Cons x xs)
  have "(\<forall>j < length (x # xs). fetch_returns e (i + j) ((x # xs) ! j)) =
        (fetch_returns e i x \<and> (\<forall>j < length xs. fetch_returns e (Suc i + j) (xs ! j)))"
    by (auto simp: less_Suc_eq_0_disj)
  then show ?case using Cons [of "Suc i"] by simp
qed

lemma main_same_load:
  assumes "load_existing (output_file s) = load_existing (output_file t)"
  shows "fst (main e s) = fst (main e t)" and "fst (snd (main e s)) = fst (snd (main e t))"
proof -
  show "fst (main e s) = fst (main e t)"
  proof (cases "run_pr_ids e")
    case None
    then have n: "\<forall>ids. snd (get_user_completed_prs (pr_list_answer e)) \<noteq> Returned ids"
      by (rule run_pr_ids_None)
    from lister_main_fails [OF n, of s] lister_main_fails [OF n, of t] show ?thesis
      by (cases "lister_main (pr_list_answer e) s"; cases "lister_main (pr_list_answer e) t")
         (simp add: main_def)
  next
    case (Some ids)
    then obtain written
      where w: "snd (get_user_completed_prs (pr_list_answer e)) = Returned written"
        and p: "parse_pr_ids (universal_newlines (write_pr_ids written)) = ids"
      by (rule run_pr_ids_SomeE)
    show ?thesis
      by (simp add: main_def lister_main_ok [OF w] p Let_def assms [symmetric]
            write_and_cleanup_def del: One_nat_def
            split: sum.splits prod.splits outcome.splits)
  qed
  show "fst (snd (main e s)) = fst (snd (main e t))"
  proof (cases "run_pr_ids e")
    case None
    then show ?thesis by (simp add: main_lister_fails)
  next
    case (Some ids)
    then obtain written
      where w: "snd (get_user_completed_prs (pr_list_answer e)) = Returned written"
        and p: "parse_pr_ids (universal_newlines (write_pr_ids written)) = ids"
      by (rule run_pr_ids_SomeE)
    show ?thesis
      by (simp add: main_def lister_main_ok [OF w] p Let_def assms [symmetric]
            write_and_cleanup_def del: One_nat_def
            split: sum.splits prod.splits outcome.splits)
  qed
qed


subsection \<open>From the number to its text and back\<close>

text \<open>
  \<^verbatim>\<open>int(str(n))\<close> is \<open>n\<close>: the text \<^verbatim>\<open>str\<close> writes for an integer is one
  \<^verbatim>\<open>int\<close> reads, as that integer.
\<close>

lemma digit_plain:
  "\<forall>c \<in> set ''0123456789''.
     \<not> is_int_space c \<and> c \<noteq> CHR ''+'' \<and> c \<noteq> CHR ''-'' \<and> c \<noteq> CHR ''_''"
  by code_simp

lemma is_digit_plain:
  "is_digit c \<Longrightarrow> \<not> is_int_space c \<and> c \<noteq> CHR ''+'' \<and> c \<noteq> CHR ''-'' \<and> c \<noteq> CHR ''_''"
  unfolding is_digit_def using digit_plain by (rule bspec)

lemma digit_val_digit_chars: "\<forall>d \<in> set [0..<10]. digit_val (digit_char d) = d"
  by code_simp

lemma digit_val_of_digit_char: "d < 10 \<Longrightarrow> digit_val (digit_char d) = d"
  using digit_val_digit_chars by simp

lemma str_nat_is_digit: "c \<in> set (str_nat n) \<Longrightarrow> is_digit c"
  unfolding is_digit_def using str_nat_chars [of n] by (rule subsetD)

lemma scan_digits_all:
  "\<forall>c \<in> set ds. is_digit c \<Longrightarrow> is_digit prev \<Longrightarrow>
   scan_digits ds prev acc = Some (foldl (\<lambda>a c. a * 10 + digit_val c) acc ds, [])"
proof (induction ds arbitrary: prev acc)
  case Nil
  from is_digit_plain [OF Nil(2)] show ?case by simp
next
  case (Cons d ds)
  then have "is_digit d" "\<forall>c \<in> set ds. is_digit c" by simp_all
  with Cons.IH [of d] show ?case by simp
qed

lemma foldl_str_nat: "foldl (\<lambda>a c. a * 10 + digit_val c) 0 (str_nat n) = n"
proof (induction n rule: str_nat.induct)
  case (1 n)
  show ?case
  proof (cases "n < 10")
    case True
    then show ?thesis by (subst str_nat.simps) (simp add: digit_val_of_digit_char)
  next
    case False
    with 1 have "foldl (\<lambda>a c. a * 10 + digit_val c) 0 (str_nat (n div 10)) = n div 10" by simp
    with False show ?thesis by (subst str_nat.simps) (simp add: digit_val_of_digit_char)
  qed
qed

lemma parse_unsigned_str_nat: "parse_unsigned (str_nat n) = Some n"
proof -
  obtain c cs where s: "str_nat n = c # cs"
    using str_nat_nonempty [of n] by (cases "str_nat n") auto
  with str_nat_is_digit [of _ n] have d: "is_digit c" "\<forall>x \<in> set cs. is_digit x" by auto
  from foldl_str_nat [of n] s
  have "foldl (\<lambda>a c. a * 10 + digit_val c) (digit_val c) cs = n" by simp
  with scan_digits_all [OF d(2) d(1), of "digit_val c"] d(1) show ?thesis
    by (simp add: parse_unsigned_def s)
qed

lemma py_int_str_int: "py_int (str_int n) = Some n"
proof (cases "n < 0")
  case True
  have "\<not> is_int_space (CHR ''-'')" by code_simp
  with True show ?thesis
    by (simp add: py_int_def str_int_def parse_unsigned_str_nat)
next
  case False
  obtain c cs where s: "str_nat (nat n) = c # cs"
    using str_nat_nonempty [of "nat n"] by (cases "str_nat (nat n)") auto
  with str_nat_is_digit [of c "nat n"] have "is_digit c" by simp
  from is_digit_plain [OF this] False parse_unsigned_str_nat [of "nat n"] show ?thesis
    by (simp add: py_int_def str_int_def s)
qed


subsection \<open>The loop over the texts of numbers\<close>

text \<open>
  Over identifiers that are the decimal texts of integers every iteration reaches the call
  of \<^verbatim>\<open>get_pr_comments\<close>, with the number itself. While the calls return, their lists
  are appended in the order of the identifiers; the first call that does not return ends
  the process, after the line for its identifier.
\<close>

lemma attempt_str_int:
  "attempt e i (str_int k) = get_pr_comments (repos_show_answer e i) (threads_answer e i k)"
  by (simp add: attempt_def py_int_str_int)

lemma fetch_returns_str_int:
  "fetch_returns e i (str_int k) = (\<exists>cs. fetched e i k = Returned cs)"
  by (cases "snd (get_pr_comments (repos_show_answer e i) (threads_answer e i k))")
     (simp_all add: fetch_returns_def py_int_str_int fetched_def)

lemma pr_records_str_int:
  "fetched e i k = Returned cs \<Longrightarrow> pr_records e i (str_int k) = cs"
  by (simp add: pr_records_def py_int_str_int fetched_def)

lemma records_from_fetched:
  "all_fetches_return e i (map str_int ns) \<Longrightarrow>
   \<exists>css. length css = length ns \<and>
         (\<forall>j < length ns. fetched e (i + j) (ns ! j) = Returned (css ! j)) \<and>
         records_from e i (map str_int ns) = concat css"
proof (induction ns arbitrary: i)
  case Nil
  show ?case by simp
next
  case (Cons n ns)
  from Cons.prems obtain cs where f: "fetched e i n = Returned cs"
    by (auto simp: fetch_returns_str_int)
  from Cons.prems have "all_fetches_return e (Suc i) (map str_int ns)" by simp
  from Cons.IH [OF this] obtain css where l: "length css = length ns"
    and a: "\<forall>j < length ns. fetched e (Suc i + j) (ns ! j) = Returned (css ! j)"
    and r: "records_from e (Suc i) (map str_int ns) = concat css" by blast
  have "\<forall>j < length (n # ns). fetched e (i + j) ((n # ns) ! j) = Returned ((cs # css) ! j)"
  proof (intro allI impI)
    fix j assume "j < length (n # ns)"
    then show "fetched e (i + j) ((n # ns) ! j) = Returned ((cs # css) ! j)"
      using f a by (cases j) simp_all
  qed
  moreover have "records_from e i (map str_int (n # ns)) = concat (cs # css)"
    by (simp add: r pr_records_str_int [OF f])
  moreover have "length (cs # css) = length (n # ns)" by (simp add: l)
  ultimately show ?case by blast
qed

lemma fetch_loop_first_exit:
  assumes "j < length ns"
    and "\<forall>i < j. \<exists>cs. fetched e (Suc i) (ns ! i) = Returned cs"
    and "\<forall>cs. fetched e (Suc j) (ns ! j) \<noteq> Returned cs"
  shows "snd (fetch_loop e m 1 (map str_int ns) []) = SysExit 1"
    and "processed (fst (fetch_loop e m 1 (map str_int ns) [])) = map str_int (take (Suc j) ns)"
proof -
  let ?pre = "map str_int (take j ns)"
  let ?x = "str_int (ns ! j)"
  let ?post = "map str_int (drop (Suc j) ns)"
  from assms(1) have ids: "map str_int ns = ?pre @ ?x # ?post"
    by (simp add: id_take_nth_drop [symmetric] flip: map_append list.map(2))
  from assms(1) have lp: "length ?pre = j" by simp
  have "all_fetches_return e 1 ?pre"
    using assms(1,2) by (simp add: all_fetches_return_nth fetch_returns_str_int)
  then have pre: "snd (fetch_loop e m 1 ?pre []) = Returned (records_from e 1 ?pre)"
    by (simp add: fetch_loop_returned_iff del: One_nat_def)
  have at: "snd (attempt e (Suc j) ?x) = fetched e (Suc j) (ns ! j)"
    by (simp add: attempt_str_int fetched_def)
  have "\<exists>c. fetched e (Suc j) (ns ! j) = SysExit c"
  proof (cases "fetched e (Suc j) (ns ! j)")
    case (Returned cs)
    with assms(3) show ?thesis by simp
  next
    case (Raised ex)
    then show ?thesis by (simp add: fetched_def get_pr_comments_not_raised)
  next
    case (SysExit c)
    then show ?thesis by simp
  qed
  with at obtain c where c: "snd (attempt e (Suc j) ?x) = SysExit c" by auto
  from attempt_exit [OF c] c have x: "snd (attempt e (Suc j) ?x) = SysExit 1" by simp
  have i: "1 + length ?pre = Suc j" using assms(1) by simp
  have s1: "snd (fetch_loop e m 1 (?pre @ ?x # ?post) []) =
            snd (fetch_loop e m (1 + length ?pre) (?x # ?post) (records_from e 1 ?pre))"
    by (rule fetch_loop_append_snd [OF pre])
  have f1: "fst (fetch_loop e m 1 (?pre @ ?x # ?post) []) =
            fst (fetch_loop e m 1 ?pre []) @
            fst (fetch_loop e m (1 + length ?pre) (?x # ?post) (records_from e 1 ?pre))"
    by (rule fetch_loop_append_fst [OF pre])
  show "snd (fetch_loop e m 1 (map str_int ns) []) = SysExit 1"
    unfolding ids s1 i by (simp add: fetch_loop_snd x)
  have "processed (fst (fetch_loop e m 1 (map str_int ns) [])) = ?pre @ [?x]"
    unfolding ids f1 i
    by (simp add: fetch_loop_fst x processed_append processed_attempt
          fetch_loop_processed_all [OF pre] del: One_nat_def)
  also from assms(1) have "\<dots> = map str_int (take (Suc j) ns)"
    by (simp add: take_Suc_conv_app_nth)
  finally show "processed (fst (fetch_loop e m 1 (map str_int ns) [])) = map str_int (take (Suc j) ns)" .
qed

lemma listed_ids_numbers:
  "\<forall>pr \<in> set prs. pr_object pr \<Longrightarrow> listed_ids prs = map str_int (listed_numbers prs)"
  unfolding listed_numbers_def by (rule listed_ids_pr_objects)

subsection \<open>The output file at the start of a run\<close>

text \<open>
  From an absent output file, and from one \<^verbatim>\<open>json.load\<close> rejects with
  \<^verbatim>\<open>JSONDecodeError\<close>, a run is the run from a file that holds the empty array: the two
  handlers of step 3 cover these two cases.
\<close>

lemma handled_output_starts_empty:
  assumes "output_file s = Absent \<or> output_file s = Not_json"
  shows "load_existing (output_file s) = Inr (JArr [])"
    and "fst (main e s) = fst (main e (s\<lparr>output_file := Holds (JArr [])\<rparr>))"
    and "fst (snd (main e s)) = fst (snd (main e (s\<lparr>output_file := Holds (JArr [])\<rparr>)))"
    and "run_pr_ids e = Some ids \<Longrightarrow> all_fetches_return e 1 ids \<Longrightarrow>
           fst (snd (main e s)) = 0 \<and>
           output_file (snd (snd (main e s))) = Holds (JArr (new_records e ids))"
proof -
  from assms show l: "load_existing (output_file s) = Inr (JArr [])" by auto
  then have same: "load_existing (output_file s) =
                   load_existing (output_file (s\<lparr>output_file := Holds (JArr [])\<rparr>))"
    by simp
  from main_same_load [OF same, of e]
  show "fst (main e s) = fst (main e (s\<lparr>output_file := Holds (JArr [])\<rparr>))"
    and "fst (snd (main e s)) = fst (snd (main e (s\<lparr>output_file := Holds (JArr [])\<rparr>)))"
    by simp_all
  show "fst (snd (main e s)) = 0 \<and>
        output_file (snd (snd (main e s))) = Holds (JArr (new_records e ids))"
    if r: "run_pr_ids e = Some ids" and a: "all_fetches_return e 1 ids"
  proof -
    from a have f: "snd (fetch_loop e (length ids) 1 ids []) = Returned (new_records e ids)"
      by (simp add: fetch_loop_returned_iff new_records_def)
    from main_completes(1,2) [OF r l f] show ?thesis by simp
  qed
qed

text \<open>
  From an output file whose bytes are not UTF-8, and from one nested too deep, the
  exception of step 3 meets no handler: the run ends there with status 1 and the file is
  left as it was.
\<close>

lemma unhandled_output_ends_run:
  assumes "output_file s = Undecodable \<or> output_file s = Too_deep"
    and "run_pr_ids e = Some ids"
  shows "fst (snd (main e s)) = 1"
    and "output_file (snd (snd (main e s))) = output_file s"
    and "processed (fst (main e s)) = []"
proof -
  from assms(1) obtain ex where l: "load_existing (output_file s) = Inl ex" by auto
  from main_load_fails [OF assms(2) l]
  show "fst (snd (main e s)) = 1" and "output_file (snd (snd (main e s))) = output_file s"
    by simp_all
  from l show "processed (fst (main e s)) = []" by (simp add: processed_main [OF assms(2)])
qed

section \<open>The claims\<close>

subsection \<open>PR Lister\<close>

text \<open>
  Claim C2, as stated: the lister writes the identifier of a pull request object if and
  only if its status is "active" or "completed". The code has a second test: after the
  status, \<^verbatim>\<open>if pr_id:\<close> drops an identifier that is absent, null or 0. A pull request
  with status "active" and identifier 0 has a listed status and is not written.
\<close>

theorem status_alone_counterexample:
  "status_listed (JObj [(''pullRequestId'', JInt 0), (''status'', JStr ''active'')]) \<and>
   lister_main
     (Stdout_json (JArr [JObj [(''pullRequestId'', JInt 0), (''status'', JStr ''active'')]]))
     \<lparr>user_prs_file = None, output_file = Absent\<rparr>
   = ([], 0, \<lparr>user_prs_file = Some [], output_file = Absent\<rparr>)"
  by (simp add: status_listed_def lister_main_def get_user_completed_prs_def ebind_def
        write_pr_ids_def)

text \<open>
  Claim C2, amended: for a list of pull request objects, the lister writes, in the order
  of the list, the identifiers of exactly the objects whose status is "active" or
  "completed" and whose identifier is truthy (present, not null, not 0), one line
  \<^verbatim>\<open><id>,\<close> each; objects in any other state are left out.
\<close>

theorem lister_writes_listed_truthy:
  assumes "\<forall>pr \<in> set prs. is_object pr"
  shows "lister_main (Stdout_json (JArr prs)) s =
           ([], 0, s\<lparr>user_prs_file :=
                       Some (write_pr_ids
                         (map id_text (filter (\<lambda>pr. status_listed pr \<and> id_truthy pr) prs)))\<rparr>)"
  using get_user_completed_prs_objects [OF assms]
  by (simp add: lister_main_def listed_ids_def)

theorem lister_writes_listed_truthy_witness:
  "lister_main
     (Stdout_json (JArr [JObj [(''pullRequestId'', JInt 101), (''status'', JStr ''active'')],
                         JObj [(''pullRequestId'', JInt 7), (''status'', JStr ''abandoned'')],
                         JObj [(''pullRequestId'', JInt 102), (''status'', JStr ''completed'')]]))
     \<lparr>user_prs_file = None, output_file = Absent\<rparr>
   = ([], 0, \<lparr>user_prs_file = Some ''101,\<newline>102,\<newline>'', output_file = Absent\<rparr>)"
proof -
  have "str_int 101 = ''101''" "str_int 102 = ''102''"
    by (simp_all add: str_int_def str_nat.simps digit_char_def)
  then show ?thesis
    using lister_writes_listed_truthy
      [of "[JObj [(''pullRequestId'', JInt 101), (''status'', JStr ''active'')],
            JObj [(''pullRequestId'', JInt 7), (''status'', JStr ''abandoned'')],
            JObj [(''pullRequestId'', JInt 102), (''status'', JStr ''completed'')]]"
          "\<lparr>user_prs_file = None, output_file = Absent\<rparr>"]
    by (simp add: status_listed_def id_truthy_def id_text_def write_pr_ids_def)
qed

text \<open>
  Claim C9: a pull request object whose identifier is absent, null or 0 is left out even
  when its status is "active" or "completed", and every identifier written is the
  decimal text of a non-zero identifier: the list returned is the decimal texts of the
  non-zero integer identifiers of the objects with a listed status, in order.
\<close>

theorem lister_skips_falsy_id:
  assumes "\<forall>pr \<in> set prs. pr_object pr"
  shows "get_user_completed_prs (Stdout_json (JArr prs)) =
           ([], Returned (map str_int
              (List.map_filter (\<lambda>pr. if status_listed pr then nonzero_id pr else None) prs)))"
proof -
  from assms have "\<forall>pr \<in> set prs. is_object pr" by (simp add: pr_object_is_object)
  then show ?thesis
    using listed_ids_pr_objects [OF assms] by (simp add: get_user_completed_prs_objects)
qed

theorem lister_skips_falsy_id_witness:
  "get_user_completed_prs
     (Stdout_json (JArr [JObj [(''status'', JStr ''active'')],
                         JObj [(''pullRequestId'', JNull), (''status'', JStr ''completed'')],
                         JObj [(''pullRequestId'', JInt 0), (''status'', JStr ''active'')],
                         JObj [(''pullRequestId'', JInt 42), (''status'', JStr ''active'')]]))
   = ([], Returned [''42''])"
proof -
  have "str_int 42 = ''42''"
    by (simp add: str_int_def str_nat.simps digit_char_def)
  then show ?thesis
    using lister_skips_falsy_id
      [of "[JObj [(''status'', JStr ''active'')],
            JObj [(''pullRequestId'', JNull), (''status'', JStr ''completed'')],
            JObj [(''pullRequestId'', JInt 0), (''status'', JStr ''active'')],
            JObj [(''pullRequestId'', JInt 42), (''status'', JStr ''active'')]]"]
    by (simp add: pr_object_def status_listed_def nonzero_id_def List.map_filter_simps)
qed

subsection \<open>Comment Fetcher\<close>

text \<open>
  Claim C3: for a thread list as the platform gives it, the fetcher returns exactly the
  records of the comments whose content is not empty and whose type is not "system",
  thread by thread and, within a thread, in the order of its comments. The reviewer name
  is "Unknown" when the comment has no author or the author no display name
  (\<open>reviewer_name_of\<close>); a thread without the key "comments" has no comments
  (\<open>comments_of\<close>) and gives no record and no error.
\<close>

theorem fetcher_keeps_qualifying_comments:
  assumes "get_repository_id repo_answer = (out, Returned repo_id)"
    and "field response ''value'' = Some (JArr threads)"
    and "list_all thread_object threads"
  shows "get_pr_comments repo_answer (Stdout_json response) =
           ([], Returned (concat (map (\<lambda>thread. map comment_record (filter qualifies (comments_of thread))) threads)))"
proof -
  from assms(2) obtain kvs where r: "response = JObj kvs" by (cases response) simp_all
  from assms(1) have o: "out = []" by (rule get_repository_id_out)
  from assms(2) r have "py_get response ''value'' (JArr []) = Inr (JArr threads)" by simp
  then show ?thesis
    using assms(1) scan_threads_objects [OF assms(3), of "[]"]
    by (simp add: get_pr_comments_def o ebind_def thread_records_def [abs_def])
qed

theorem fetcher_keeps_qualifying_comments_witness:
  "get_pr_comments (Stdout_json (JObj [(''id'', JStr ''r1'')]))
     (Stdout_json (JObj [(''value'', JArr
        [JObj [(''comments'', JArr
           [JObj [(''author'', JObj [(''displayName'', JStr ''Ann'')]),
                  (''content'', JStr ''ok''), (''publishedDate'', JStr ''d1''),
                  (''commentType'', JStr ''text'')],
            JObj [(''author'', JObj [(''displayName'', JStr ''Bot'')]),
                  (''content'', JStr ''vote''), (''commentType'', JStr ''system'')],
            JObj [(''content'', JStr []), (''commentType'', JStr ''text'')],
            JObj [(''content'', JStr ''hm'')]])],
         JObj [(''id'', JInt 2)],
         JObj [(''comments'', JArr
           [JObj [(''author'', JObj []), (''content'', JStr ''fix'')]])]])]))
   = ([], Returned
        [JObj [(''reviewer_name'', JStr ''Ann''), (''comment'', JStr ''ok''), (''date'', JStr ''d1'')],
         JObj [(''reviewer_name'', JStr ''Unknown''), (''comment'', JStr ''hm''), (''date'', JStr [])],
         JObj [(''reviewer_name'', JStr ''Unknown''), (''comment'', JStr ''fix''), (''date'', JStr [])]])"
proof -
  have r: "get_repository_id (Stdout_json (JObj [(''id'', JStr ''r1'')])) = ([], Returned (JStr ''r1''))"
    by (simp add: get_repository_id_def ebind_def)
  show ?thesis
    using fetcher_keeps_qualifying_comments [OF r,
      of "JObj [(''value'', JArr
        [JObj [(''comments'', JArr
           [JObj [(''author'', JObj [(''displayName'', JStr ''Ann'')]),
                  (''content'', JStr ''ok''), (''publishedDate'', JStr ''d1''),
                  (''commentType'', JStr ''text'')],
            JObj [(''author'', JObj [(''displayName'', JStr ''Bot'')]),
                  (''content'', JStr ''vote''), (''commentType'', JStr ''system'')],
            JObj [(''content'', JStr []), (''commentType'', JStr ''text'')],
            JObj [(''content'', JStr ''hm'')]])],
         JObj [(''id'', JInt 2)],
         JObj [(''comments'', JArr
           [JObj [(''author'', JObj []), (''content'', JStr ''fix'')]])]])]"
      "[JObj [(''comments'', JArr
           [JObj [(''author'', JObj [(''displayName'', JStr ''Ann'')]),
                  (''content'', JStr ''ok''), (''publishedDate'', JStr ''d1''),
                  (''commentType'', JStr ''text'')],
            JObj [(''author'', JObj [(''displayName'', JStr ''Bot'')]),
                  (''content'', JStr ''vote''), (''commentType'', JStr ''system'')],
            JObj [(''content'', JStr []), (''commentType'', JStr ''text'')],
            JObj [(''content'', JStr ''hm'')]])],
         JObj [(''id'', JInt 2)],
         JObj [(''comments'', JArr
           [JObj [(''author'', JObj []), (''content'', JStr ''fix'')]])]]"]
    by (simp add: thread_object_def comment_object_def comments_of_def qualifies_def
          comment_record_def content_of_def date_of_def is_system_def reviewer_name_of_def)
qed

subsection \<open>Aggregation Driver\<close>

text \<open>
  Claim C1 says that when fetching the comments of one identifier fails, the driver
  prints a warning, goes on with the other identifiers, writes the output file and ends
  with success. The loop of \<^verbatim>\<open>main\<close> has the handler for it (\<^verbatim>\<open>except Exception\<close>,
  the warning, \<^verbatim>\<open>continue\<close>), but every handler of \<^verbatim>\<open>get_pr_comments\<close> ends in
  \<^verbatim>\<open>sys.exit(1)\<close>, and \<^verbatim>\<open>SystemExit\<close> is not an \<^verbatim>\<open>Exception\<close>: a failing
  fetch ends the process. The run below has three pull requests; the thread query of the
  second exits with a non-zero status. The process ends with status 1 after the second
  identifier, no warning is printed, the third identifier is not processed, and the output
  file is not written.
\<close>

theorem fetch_failure_exits:
  "main \<lparr>pr_list_answer = Stdout_json (JArr
            [pr_obj (JInt 1) ''completed'', pr_obj (JInt 2) ''completed'',
             pr_obj (JInt 3) ''completed'']),
          repos_show_answer = (\<lambda>i. repo_found),
          threads_answer = (\<lambda>i k. if k = 2 then NonZeroExit else one_comment ''ok''),
          remove_fails = False\<rparr>
        fresh
   = ([Fetching_PRs_for_user, Found_PRs_to_process 3,
       Processing_PR ''1'' 1 3, Processing_PR ''2'' 2 3,
       Error_executing_Azure_CLI_command, Stderr_of_child],
      1,
      \<lparr>user_prs_file = Some ''1,\<newline>2,\<newline>3,\<newline>'', output_file = Absent\<rparr>)"
  by code_simp

text \<open>
  Claim C4: when the resolution of the repository name fails (the call exits with a
  non-zero status, its output is not JSON, or the parsed answer has no field "id"), the
  process ends with a non-zero status, a diagnostic is on the error stream, and the output
  file is as it was. The resolution is called while an identifier is processed: the
  statement is about a run that reaches an identifier which is an integer, the
  identifiers before it having been processed without ending the process.
\<close>

theorem resolution_failure_is_fatal:
  assumes "run_pr_ids e = Some (pre @ pr_id # post)"
    and "load_existing (output_file s) = Inr existing"
    and "snd (fetch_loop e (length (pre @ pr_id # post)) 1 pre []) = Returned new"
    and "py_int pr_id = Some k"
    and "resolution_fails (repos_show_answer e (Suc (length pre)))"
  shows "fst (snd (main e s)) = 1 \<and>
         (\<exists>m \<in> set (fst (main e s)). is_diagnostic m) \<and>
         output_file (snd (snd (main e s))) = output_file s"
proof -
  let ?ids = "pre @ pr_id # post"
  from assms(5) have r: "resolution_fails (repos_show_answer e (1 + length pre))" by simp
  have x: "snd (fetch_loop e (length ?ids) 1 ?ids []) = SysExit 1"
    by (rule fetch_loop_resolution_fails(1) [OF assms(3) assms(4) r])
  have d: "\<exists>m \<in> set (fst (fetch_loop e (length ?ids) 1 ?ids [])). is_diagnostic m"
    by (rule fetch_loop_resolution_fails(2) [OF assms(3) assms(4) r])
  from main_exits [OF assms(1) assms(2) x] d show ?thesis by auto
qed

theorem resolution_failure_is_fatal_witness:
  "fst (snd (main \<lparr>pr_list_answer = Stdout_json (JArr [pr_obj (JInt 7) ''active'']),
                    repos_show_answer = (\<lambda>i. NonZeroExit),
                    threads_answer = (\<lambda>i k. one_comment ''ok''),
                    remove_fails = False\<rparr> fresh)) = 1 \<and>
   (\<exists>m \<in> set (fst (main \<lparr>pr_list_answer = Stdout_json (JArr [pr_obj (JInt 7) ''active'']),
                    repos_show_answer = (\<lambda>i. NonZeroExit),
                    threads_answer = (\<lambda>i k. one_comment ''ok''),
                    remove_fails = False\<rparr> fresh)). is_diagnostic m) \<and>
   output_file (snd (snd (main \<lparr>pr_list_answer = Stdout_json (JArr [pr_obj (JInt 7) ''active'']),
                    repos_show_answer = (\<lambda>i. NonZeroExit),
                    threads_answer = (\<lambda>i k. one_comment ''ok''),
                    remove_fails = False\<rparr> fresh))) = output_file fresh"
proof -
  let ?e = "\<lparr>pr_list_answer = Stdout_json (JArr [pr_obj (JInt 7) ''active'']),
             repos_show_answer = (\<lambda>i. NonZeroExit),
             threads_answer = (\<lambda>i k. one_comment ''ok''),
             remove_fails = False\<rparr>"
  have 1: "run_pr_ids ?e = Some ([] @ ''7'' # [])" by code_simp
  have 2: "load_existing (output_file fresh) = Inr (JArr [])" by code_simp
  have 3: "snd (fetch_loop ?e (length ([] @ ''7'' # [])) 1 [] []) = Returned []" by simp
  have 4: "py_int ''7'' = Some 7" by code_simp
  have 5: "resolution_fails (repos_show_answer ?e (Suc (length [])))" by simp
  show ?thesis by (rule resolution_failure_is_fatal [OF 1 2 3 4 5])
qed

text \<open>
  Claim C5: the sequence written to the output file is the sequence loaded from it
  followed by the records fetched in the run (identifier by identifier in processing
  order, \<open>new_records\<close>), nothing removed. A second run against the same answers of the
  platform loads what the first wrote and appends the same records again: the fetched
  records are there twice, and when the first run started without records the count after
  the second run is twice the count after the first. A run that ends with status 0 is a
  run that reached the write.
\<close>

theorem output_is_existing_then_new:
  assumes "fst (snd (main e s)) = 0"
  shows "\<exists>ids existing.
           run_pr_ids e = Some ids \<and>
           load_existing (output_file s) = Inr (JArr existing) \<and>
           output_file (snd (snd (main e s))) = Holds (JArr (existing @ new_records e ids)) \<and>
           fst (snd (main e (snd (snd (main e s))))) = 0 \<and>
           output_file (snd (snd (main e (snd (snd (main e s)))))) =
             Holds (JArr (existing @ new_records e ids @ new_records e ids)) \<and>
           (existing = [] \<longrightarrow>
              record_count (output_file (snd (snd (main e (snd (snd (main e s))))))) =
                2 * record_count (output_file (snd (snd (main e s)))))"
proof -
  from assms obtain ids existing where r: "run_pr_ids e = Some ids"
    and l: "load_existing (output_file s) = Inr (JArr existing)"
    and f: "snd (fetch_loop e (length ids) 1 ids []) = Returned (new_records e ids)"
    by (rule main_success)
  let ?s' = "snd (snd (main e s))"
  have o1: "output_file ?s' = Holds (JArr (existing @ new_records e ids))"
    by (rule main_completes(2) [OF r l f])
  then have l': "load_existing (output_file ?s') = Inr (JArr (existing @ new_records e ids))"
    by simp
  have st2: "fst (snd (main e ?s')) = 0" by (rule main_completes(1) [OF r l' f])
  have o2: "output_file (snd (snd (main e ?s'))) =
              Holds (JArr ((existing @ new_records e ids) @ new_records e ids))"
    by (rule main_completes(2) [OF r l' f])
  from r l o1 st2 o2 show ?thesis by simp
qed

theorem output_is_existing_then_new_witness:
  "output_file (snd (snd (main
       \<lparr>pr_list_answer = Stdout_json (JArr [pr_obj (JInt 101) ''active'',
                                            pr_obj (JInt 102) ''completed'']),
        repos_show_answer = (\<lambda>i. repo_found),
        threads_answer = (\<lambda>i k. if k = 101 then one_comment ''a'' else one_comment ''b''),
        remove_fails = False\<rparr> fresh)))
     = Holds (JArr [record_of ''a'', record_of ''b'']) \<and>
   output_file (snd (snd (main
       \<lparr>pr_list_answer = Stdout_json (JArr [pr_obj (JInt 101) ''active'',
                                            pr_obj (JInt 102) ''completed'']),
        repos_show_answer = (\<lambda>i. repo_found),
        threads_answer = (\<lambda>i k. if k = 101 then one_comment ''a'' else one_comment ''b''),
        remove_fails = False\<rparr>
       (snd (snd (main
          \<lparr>pr_list_answer = Stdout_json (JArr [pr_obj (JInt 101) ''active'',
                                               pr_obj (JInt 102) ''completed'']),
           repos_show_answer = (\<lambda>i. repo_found),
           threads_answer = (\<lambda>i k. if k = 101 then one_comment ''a'' else one_comment ''b''),
           remove_fails = False\<rparr> fresh))))))
     = Holds (JArr [record_of ''a'', record_of ''b'', record_of ''a'', record_of ''b''])"
proof -
  let ?e = "\<lparr>pr_list_answer = Stdout_json (JArr [pr_obj (JInt 101) ''active'',
                                            pr_obj (JInt 102) ''completed'']),
        repos_show_answer = (\<lambda>i. repo_found),
        threads_answer = (\<lambda>i k. if k = 101 then one_comment ''a'' else one_comment ''b''),
        remove_fails = False\<rparr>"
  have st: "fst (snd (main ?e fresh)) = 0" by code_simp
  have ids: "run_pr_ids ?e = Some [''101'', ''102'']" by code_simp
  have ex: "load_existing (output_file fresh) = Inr (JArr [])" by code_simp
  have new: "new_records ?e [''101'', ''102''] = [record_of ''a'', record_of ''b'']"
    by code_simp
  from output_is_existing_then_new [OF st] ids ex new show ?thesis by auto
qed

text \<open>
  Claim C6: the identifiers the lister writes, one line \<^verbatim>\<open><id>,\<close> each, are read back
  by the driver as the same texts in the same order (for the decimal texts of any integers
  \<open>ms\<close>, and so for the identifiers \<open>listed_ids prs\<close> of the pull request objects of a
  run, which are the texts of the numbers \<open>listed_numbers prs\<close>), and \<^verbatim>\<open>int\<close> gives
  each text its number back. The driver processes them in that order:
  \<^item> the identifiers of its \<open>Processing_PR\<close> lines are an initial part of the list;
  \<^item> in a run that ends with status 0 they are the whole list, the \<open>j\<close>-th call of
    \<^verbatim>\<open>get_pr_comments\<close> is the one for the \<open>j\<close>-th number of the list, every call
    returns, and the output file holds the loaded records followed by the lists the calls
    returned, in the order of the list;
  \<^item> when the calls for the numbers before the \<open>j\<close>-th return and the call for the
    \<open>j\<close>-th does not, the run ends with status 1 after the line for the \<open>j\<close>-th
    identifier, no later identifier is processed and the output file is left as it was.

  The file \<^verbatim>\<open>101,\\n102,\\n\<close> gives 101 and then 102.
\<close>

theorem identifier_file_round_trip:
  assumes "pr_list_answer e = Stdout_json (JArr prs)"
    and "\<forall>pr \<in> set prs. pr_object pr"
  shows "parse_pr_ids (universal_newlines (write_pr_ids (map str_int ms))) = map str_int ms \<and>
         py_int (str_int m) = Some m \<and>
         listed_ids prs = map str_int (listed_numbers prs) \<and>
         snd (get_user_completed_prs (pr_list_answer e)) = Returned (listed_ids prs) \<and>
         run_pr_ids e = Some (listed_ids prs) \<and>
         (\<exists>rest. listed_ids prs = processed (fst (main e s)) @ rest) \<and>
         (fst (snd (main e s)) = 0 \<longrightarrow>
            processed (fst (main e s)) = listed_ids prs \<and>
            (\<exists>existing css.
               load_existing (output_file s) = Inr (JArr existing) \<and>
               length css = length (listed_numbers prs) \<and>
               (\<forall>j < length (listed_numbers prs).
                  fetched e (Suc j) (listed_numbers prs ! j) = Returned (css ! j)) \<and>
               output_file (snd (snd (main e s))) = Holds (JArr (existing @ concat css)))) \<and>
         (\<forall>j < length (listed_numbers prs).
            (\<exists>existing. load_existing (output_file s) = Inr existing) \<and>
            (\<forall>i < j. \<exists>cs. fetched e (Suc i) (listed_numbers prs ! i) = Returned cs) \<and>
            (\<forall>cs. fetched e (Suc j) (listed_numbers prs ! j) \<noteq> Returned cs) \<longrightarrow>
            fst (snd (main e s)) = 1 \<and>
            processed (fst (main e s)) = map str_int (take (Suc j) (listed_numbers prs)) \<and>
            output_file (snd (snd (main e s))) = output_file s)"
proof -
  let ?ns = "listed_numbers prs"
  let ?ids = "listed_ids prs"
  have a: "parse_pr_ids (universal_newlines (write_pr_ids (map str_int ms))) = map str_int ms"
    by (rule parse_written_tidy) (simp add: tidy_str_int)
  have i: "py_int (str_int m) = Some m" by (rule py_int_str_int)
  have n: "?ids = map str_int ?ns" using assms(2) by (rule listed_ids_numbers)
  from assms(2) have "\<forall>pr \<in> set prs. is_object pr" by (simp add: pr_object_is_object)
  then have b: "snd (get_user_completed_prs (pr_list_answer e)) = Returned ?ids"
    by (simp add: assms(1) get_user_completed_prs_objects)
  have r: "run_pr_ids e = Some ?ids"
    using assms by (rule run_pr_ids_pr_objects)
  have c: "\<exists>rest. ?ids = processed (fst (main e s)) @ rest"
    using fetch_loop_processed_prefix [of ?ids e "length ?ids" 1 "[]"]
    by (cases "load_existing (output_file s)") (simp_all add: processed_main [OF r])
  have d: "processed (fst (main e s)) = ?ids \<and>
           (\<exists>existing css.
               load_existing (output_file s) = Inr (JArr existing) \<and>
               length css = length ?ns \<and>
               (\<forall>j < length ?ns. fetched e (Suc j) (?ns ! j) = Returned (css ! j)) \<and>
               output_file (snd (snd (main e s))) = Holds (JArr (existing @ concat css)))"
    if "fst (snd (main e s)) = 0"
  proof -
    from that obtain ids existing where r': "run_pr_ids e = Some ids"
      and l: "load_existing (output_file s) = Inr (JArr existing)"
      and f: "snd (fetch_loop e (length ids) 1 ids []) = Returned (new_records e ids)"
      by (rule main_success)
    from r r' have same: "ids = ?ids" by simp
    with l f have p: "processed (fst (main e s)) = ?ids"
      by (simp add: processed_main [OF r] fetch_loop_processed_all del: One_nat_def)
    from f have "all_fetches_return e 1 ids"
      by (simp add: fetch_loop_returned_iff del: One_nat_def)
    with same n have "all_fetches_return e 1 (map str_int ?ns)" by simp
    from records_from_fetched [OF this] obtain css where lc: "length css = length ?ns"
      and fc: "\<forall>j < length ?ns. fetched e (1 + j) (?ns ! j) = Returned (css ! j)"
      and rc: "records_from e 1 (map str_int ?ns) = concat css" by blast
    from rc same n have "new_records e ids = concat css" by (simp add: new_records_def)
    with main_completes(2) [OF r' l f]
    have "output_file (snd (snd (main e s))) = Holds (JArr (existing @ concat css))" by simp
    with p l lc fc show ?thesis by auto
  qed
  have x: "fst (snd (main e s)) = 1 \<and>
           processed (fst (main e s)) = map str_int (take (Suc j) ?ns) \<and>
           output_file (snd (snd (main e s))) = output_file s"
    if j: "j < length ?ns"
      and l: "load_existing (output_file s) = Inr existing"
      and before: "\<forall>i < j. \<exists>cs. fetched e (Suc i) (?ns ! i) = Returned cs"
      and at: "\<forall>cs. fetched e (Suc j) (?ns ! j) \<noteq> Returned cs"
    for j existing
  proof -
    note fl = fetch_loop_first_exit [OF j before at, of "length ?ids"]
    from fl(1) n have ex: "snd (fetch_loop e (length ?ids) 1 ?ids []) = SysExit 1" by simp
    from fl(2) n have pr: "processed (fst (fetch_loop e (length ?ids) 1 ?ids [])) =
                           map str_int (take (Suc j) ?ns)" by simp
    note m = main_exits [OF r l ex]
    from pr have "processed (fst (main e s)) = map str_int (take (Suc j) ?ns)"
      by (simp add: processed_main [OF r] l del: One_nat_def)
    with m(1) m(2) show ?thesis by simp
  qed
  from a i n b r c d x show ?thesis by blast
qed


theorem identifier_file_round_trip_witness:
  "parse_pr_ids (universal_newlines ''101,\<newline>102,\<newline>'') = [''101'', ''102''] \<and>
   py_int ''101'' = Some 101 \<and>
   processed (fst (main
       \<lparr>pr_list_answer = Stdout_json (JArr [pr_obj (JInt 101) ''active'',
                                            pr_obj (JInt 102) ''completed'']),
        repos_show_answer = (\<lambda>i. repo_found),
        threads_answer = (\<lambda>i k. if k = 101 then one_comment ''a'' else one_comment ''b''),
        remove_fails = False\<rparr> fresh)) = [''101'', ''102''] \<and>
   output_file (snd (snd (main
       \<lparr>pr_list_answer = Stdout_json (JArr [pr_obj (JInt 101) ''active'',
                                            pr_obj (JInt 102) ''completed'']),
        repos_show_answer = (\<lambda>i. repo_found),
        threads_answer = (\<lambda>i k. if k = 101 then one_comment ''a'' else one_comment ''b''),
        remove_fails = False\<rparr> fresh))) = Holds (JArr [record_of ''a'', record_of ''b'']) \<and>
   processed (fst (main
       \<lparr>pr_list_answer = Stdout_json (JArr [pr_obj (JInt 101) ''active'',
                                            pr_obj (JInt 102) ''completed'',
                                            pr_obj (JInt 103) ''active'']),
        repos_show_answer = (\<lambda>i. repo_found),
        threads_answer = (\<lambda>i k. if k = 102 then NonZeroExit else one_comment ''a''),
        remove_fails = False\<rparr> fresh)) = [''101'', ''102'']"
proof -
  let ?e = "\<lparr>pr_list_answer = Stdout_json (JArr [pr_obj (JInt 101) ''active'',
                                            pr_obj (JInt 102) ''completed'']),
        repos_show_answer = (\<lambda>i. repo_found),
        threads_answer = (\<lambda>i k. if k = 101 then one_comment ''a'' else one_comment ''b''),
        remove_fails = False\<rparr>"
  let ?prs = "[pr_obj (JInt 101) ''active'', pr_obj (JInt 102) ''completed'']"
  let ?e' = "\<lparr>pr_list_answer = Stdout_json (JArr [pr_obj (JInt 101) ''active'',
                                            pr_obj (JInt 102) ''completed'',
                                            pr_obj (JInt 103) ''active'']),
        repos_show_answer = (\<lambda>i. repo_found),
        threads_answer = (\<lambda>i k. if k = 102 then NonZeroExit else one_comment ''a''),
        remove_fails = False\<rparr>"
  let ?prs' = "[pr_obj (JInt 101) ''active'', pr_obj (JInt 102) ''completed'',
               pr_obj (JInt 103) ''active'']"
  have 1: "pr_list_answer ?e = Stdout_json (JArr ?prs)" by simp
  have 2: "\<forall>pr \<in> set ?prs. pr_object pr" by code_simp
  have st: "fst (snd (main ?e fresh)) = 0" by code_simp
  have w: "write_pr_ids [''101'', ''102''] = ''101,\<newline>102,\<newline>''" by code_simp
  have m: "map str_int [101, 102] = [''101'', ''102'']" by code_simp
  have s: "str_int 101 = ''101''" by code_simp
  have l: "listed_ids ?prs = [''101'', ''102'']" by code_simp
  have ln: "listed_numbers ?prs = [101, 102]" by code_simp
  have f1: "fetched ?e (Suc 0) ([101, 102] ! 0) = Returned [record_of ''a'']" by code_simp
  have f2: "fetched ?e (Suc 1) ([101, 102] ! 1) = Returned [record_of ''b'']" by code_simp
  have ld: "load_existing (output_file fresh) = Inr (JArr [])" by code_simp
  note t = identifier_file_round_trip [OF 1 2, of "[101, 102]" 101 fresh]
  note t1 = t [THEN conjunct1]
  note t2 = t [THEN conjunct2, THEN conjunct1]
  note t7 = t [THEN conjunct2, THEN conjunct2, THEN conjunct2, THEN conjunct2, THEN conjunct2,
               THEN conjunct2, THEN conjunct1]
  note ok = mp [OF t7 st]
  from t1 have p1: "parse_pr_ids (universal_newlines ''101,\<newline>102,\<newline>'') = [''101'', ''102'']"
    by (simp only: m w)
  from t2 have p2: "py_int ''101'' = Some 101" by (simp only: s)
  from ok [THEN conjunct1] have p3: "processed (fst (main ?e fresh)) = [''101'', ''102'']"
    by (simp only: l)
  from ok [THEN conjunct2] obtain existing css
    where e: "load_existing (output_file fresh) = Inr (JArr existing)"
      and lc: "length css = length (listed_numbers ?prs)"
      and fc: "\<forall>j < length (listed_numbers ?prs).
                 fetched ?e (Suc j) (listed_numbers ?prs ! j) = Returned (css ! j)"
      and out: "output_file (snd (snd (main ?e fresh))) = Holds (JArr (existing @ concat css))"
    by (elim exE conjE)
  from e have e0: "existing = []" by (simp only: ld sum.inject json.inject)
  from lc have lc2: "length css = 2" by (simp only: ln) simp
  from fc have fc2: "\<forall>j < 2. fetched ?e (Suc j) ([101, 102] ! j) = Returned (css ! j)"
    by (simp only: ln) simp
  have "(0::nat) < 2" by simp
  with fc2 have "fetched ?e (Suc 0) ([101, 102] ! 0) = Returned (css ! 0)" by blast
  then have c0: "css ! 0 = [record_of ''a'']" by (simp only: f1 outcome.inject)
  have "(1::nat) < 2" by simp
  with fc2 have "fetched ?e (Suc 1) ([101, 102] ! 1) = Returned (css ! 1)" by blast
  then have c1: "css ! 1 = [record_of ''b'']" by (simp only: f2 outcome.inject)
  from lc2 have "css = [css ! 0, css ! 1]"
    by (auto simp: length_Suc_conv numeral_2_eq_2)
  then have "concat css = concat [css ! 0, css ! 1]" by (rule arg_cong)
  then have cc: "concat css = [record_of ''a'', record_of ''b'']"
    by (simp only: c0 c1) simp
  from out have p4: "output_file (snd (snd (main ?e fresh))) =
                       Holds (JArr [record_of ''a'', record_of ''b''])"
    by (simp only: e0 cc append_Nil)
  have h1: "pr_list_answer ?e' = Stdout_json (JArr ?prs')" by simp
  have h2: "\<forall>pr \<in> set ?prs'. pr_object pr" by code_simp
  have ln': "listed_numbers ?prs' = [101, 102, 103]" by code_simp
  have g1: "fetched ?e' (Suc 0) ([101, 102, 103] ! 0) = Returned [record_of ''a'']"
    by code_simp
  have g2: "fetched ?e' (Suc 1) ([101, 102, 103] ! 1) = SysExit 1" by code_simp
  have tk: "map str_int (take (Suc 1) [101, 102, 103]) = [''101'', ''102'']" by code_simp
  note t' = identifier_file_round_trip [OF h1 h2, of "[]" 0 fresh]
  note t8 = t' [THEN conjunct2, THEN conjunct2, THEN conjunct2, THEN conjunct2, THEN conjunct2,
                THEN conjunct2, THEN conjunct2, unfolded ln', rule_format, of 1]
  have j: "1 < length [101::int, 102, 103]" by simp
  have ex: "\<exists>existing. load_existing (output_file fresh) = Inr existing"
    using ld by (rule exI)
  have before: "\<forall>i < 1. \<exists>cs. fetched ?e' (Suc i) ([101, 102, 103] ! i) = Returned cs"
  proof (intro allI impI)
    fix i :: nat
    assume "i < 1"
    then have "i = 0" by simp
    with g1 show "\<exists>cs. fetched ?e' (Suc i) ([101, 102, 103] ! i) = Returned cs" by blast
  qed
  have at: "\<forall>cs. fetched ?e' (Suc 1) ([101, 102, 103] ! 1) \<noteq> Returned cs"
    by (simp only: g2) simp
  from ex before at
  have hyp: "(\<exists>existing. load_existing (output_file fresh) = Inr existing) \<and>
             (\<forall>i < 1. \<exists>cs. fetched ?e' (Suc i) ([101, 102, 103] ! i) = Returned cs) \<and>
             (\<forall>cs. fetched ?e' (Suc 1) ([101, 102, 103] ! 1) \<noteq> Returned cs)"
    by (intro conjI)
  from t8 [OF j hyp] have p5: "processed (fst (main ?e' fresh)) = [''101'', ''102'']"
    by (simp only: tk)
  from p1 p2 p3 p4 p5 show ?thesis by (intro conjI)
qed

text \<open>
  Claim C7: an output file that is present and is not valid JSON does not always leave the
  run going. The handlers of step 3 take \<^verbatim>\<open>FileNotFoundError\<close> and
  \<^verbatim>\<open>JSONDecodeError\<close>; the comment of the second reads "File exists but is invalid JSON,
  start fresh". A file whose bytes are not UTF-8 raises \<^verbatim>\<open>UnicodeDecodeError\<close> and a
  file nested too deep raises \<^verbatim>\<open>RecursionError\<close>, and neither is handled: with two pull
  requests listed and every answer of the platform in order, the run prints the count of
  pull requests and ends with the traceback and status 1, before any pull request is
  processed, and the output file is left as it was; the intermediate file stays behind.
\<close>

theorem invalid_output_file_ends_run:
  "main \<lparr>pr_list_answer = Stdout_json (JArr [pr_obj (JInt 101) ''active'',
                                            pr_obj (JInt 102) ''completed'']),
          repos_show_answer = (\<lambda>i. repo_found),
          threads_answer = (\<lambda>i k. if k = 101 then one_comment ''a'' else one_comment ''b''),
          remove_fails = False\<rparr>
        \<lparr>user_prs_file = None, output_file = Undecodable\<rparr>
   = ([Fetching_PRs_for_user, Found_PRs_to_process 2, Traceback UnicodeDecodeError],
      1,
      \<lparr>user_prs_file = Some ''101,\<newline>102,\<newline>'', output_file = Undecodable\<rparr>) \<and>
   main \<lparr>pr_list_answer = Stdout_json (JArr [pr_obj (JInt 101) ''active'',
                                            pr_obj (JInt 102) ''completed'']),
          repos_show_answer = (\<lambda>i. repo_found),
          threads_answer = (\<lambda>i k. if k = 101 then one_comment ''a'' else one_comment ''b''),
          remove_fails = False\<rparr>
        \<lparr>user_prs_file = None, output_file = Too_deep\<rparr>
   = ([Fetching_PRs_for_user, Found_PRs_to_process 2, Traceback RecursionError],
      1,
      \<lparr>user_prs_file = Some ''101,\<newline>102,\<newline>'', output_file = Too_deep\<rparr>)"
  by code_simp

text \<open>
  Claim C10: an identifier text that \<^verbatim>\<open>int\<close> does not accept raises
  \<^verbatim>\<open>ValueError\<close> inside the \<^verbatim>\<open>try\<close> of the loop, before any call of the
  platform: the driver prints the warning for it, adds no record for it and goes on. When
  every identifier that is an integer is fetched without ending the process, the run
  processes all identifiers, writes the output file and ends with status 0.
\<close>

theorem unparseable_identifier_is_skipped:
  assumes "run_pr_ids e = Some ids"
    and "load_existing (output_file s) = Inr (JArr existing)"
    and "\<forall>j < length ids. \<forall>k. py_int (ids ! j) = Some k \<longrightarrow>
           (\<exists>cs. snd (get_pr_comments (repos_show_answer e (Suc j)) (threads_answer e (Suc j) k))
                    = Returned cs)"
  shows "fst (snd (main e s)) = 0 \<and>
         processed (fst (main e s)) = ids \<and>
         output_file (snd (snd (main e s))) = Holds (JArr (existing @ new_records e ids)) \<and>
         (\<forall>j < length ids. py_int (ids ! j) = None \<longrightarrow>
            Warning_failed_to_get_comments (ids ! j) ValueError \<in> set (fst (main e s)) \<and>
            pr_records e (Suc j) (ids ! j) = [])"
proof -
  have "fetch_returns e (1 + j) (ids ! j)" if "j < length ids" for j
  proof (cases "py_int (ids ! j)")
    case None
    then show ?thesis by (simp add: fetch_returns_def)
  next
    case (Some k)
    with assms(3) that obtain cs
      where "snd (get_pr_comments (repos_show_answer e (Suc j)) (threads_answer e (Suc j) k))
               = Returned cs"
      by blast
    with Some show ?thesis by (simp add: fetch_returns_def)
  qed
  then have "all_fetches_return e 1 ids" by (simp add: all_fetches_return_nth)
  then have f: "snd (fetch_loop e (length ids) 1 ids []) = Returned (new_records e ids)"
    by (simp add: fetch_loop_returned_iff new_records_def)
  note m = main_completes [OF assms(1) assms(2) f]
  have p: "processed (fst (main e s)) = ids"
    using fetch_loop_processed_all [OF f]
    by (simp add: processed_main [OF assms(1)] assms(2) del: One_nat_def)
  have w: "Warning_failed_to_get_comments (ids ! j) ValueError \<in> set (fst (main e s)) \<and>
           pr_records e (Suc j) (ids ! j) = []"
    if "j < length ids" "py_int (ids ! j) = None" for j
  proof -
    from that(1) have "ids ! j \<in> set ids" by simp
    from fetch_loop_warns [OF this that(2) f] that(2) show ?thesis
      by (simp add: m(3) pr_records_def del: One_nat_def)
  qed
  from m(1) m(2) p w show ?thesis by blast
qed

theorem unparseable_identifier_is_skipped_witness:
  "py_int ''abc'' = None \<and>
   fst (snd (main \<lparr>pr_list_answer = Stdout_json (JArr [pr_obj (JStr ''abc'') ''active'',
                                                      pr_obj (JInt 5) ''active'']),
                    repos_show_answer = (\<lambda>i. repo_found),
                    threads_answer = (\<lambda>i k. one_comment ''ok''),
                    remove_fails = False\<rparr> fresh)) = 0 \<and>
   processed (fst (main \<lparr>pr_list_answer = Stdout_json (JArr [pr_obj (JStr ''abc'') ''active'',
                                                      pr_obj (JInt 5) ''active'']),
                    repos_show_answer = (\<lambda>i. repo_found),
                    threads_answer = (\<lambda>i k. one_comment ''ok''),
                    remove_fails = False\<rparr> fresh)) = [''abc'', ''5''] \<and>
   output_file (snd (snd (main \<lparr>pr_list_answer = Stdout_json (JArr [pr_obj (JStr ''abc'') ''active'',
                                                      pr_obj (JInt 5) ''active'']),
                    repos_show_answer = (\<lambda>i. repo_found),
                    threads_answer = (\<lambda>i k. one_comment ''ok''),
                    remove_fails = False\<rparr> fresh))) = Holds (JArr [record_of ''ok'']) \<and>
   Warning_failed_to_get_comments ''abc'' ValueError
     \<in> set (fst (main \<lparr>pr_list_answer = Stdout_json (JArr [pr_obj (JStr ''abc'') ''active'',
                                                      pr_obj (JInt 5) ''active'']),
                    repos_show_answer = (\<lambda>i. repo_found),
                    threads_answer = (\<lambda>i k. one_comment ''ok''),
                    remove_fails = False\<rparr> fresh))"
proof -
  let ?e = "\<lparr>pr_list_answer = Stdout_json (JArr [pr_obj (JStr ''abc'') ''active'',
                                            pr_obj (JInt 5) ''active'']),
          repos_show_answer = (\<lambda>i. repo_found),
          threads_answer = (\<lambda>i k. one_comment ''ok''),
          remove_fails = False\<rparr>"
  let ?ids = "[''abc'', ''5'']"
  have 1: "run_pr_ids ?e = Some ?ids" by code_simp
  have 2: "load_existing (output_file fresh) = Inr (JArr [])" by code_simp
  have g: "snd (get_pr_comments repo_found (one_comment ''ok'')) = Returned [record_of ''ok'']"
    by code_simp
  have 3: "\<forall>j < length ?ids. \<forall>k. py_int (?ids ! j) = Some k \<longrightarrow>
           (\<exists>cs. snd (get_pr_comments (repos_show_answer ?e (Suc j)) (threads_answer ?e (Suc j) k))
                    = Returned cs)"
    using g by simp
  have b: "py_int ''abc'' = None" by code_simp
  have new: "new_records ?e ?ids = [record_of ''ok'']" by code_simp
  note t = unparseable_identifier_is_skipped [OF 1 2 3]
  from t have "fst (snd (main ?e fresh)) = 0" and "processed (fst (main ?e fresh)) = ?ids"
    and "output_file (snd (snd (main ?e fresh))) = Holds (JArr ([] @ new_records ?e ?ids))"
    and w: "\<forall>j < length ?ids. py_int (?ids ! j) = None \<longrightarrow>
            Warning_failed_to_get_comments (?ids ! j) ValueError \<in> set (fst (main ?e fresh)) \<and>
            pr_records ?e (Suc j) (?ids ! j) = []"
    by blast+
  moreover from w b have "Warning_failed_to_get_comments ''abc'' ValueError \<in> set (fst (main ?e fresh))"
    by (auto dest: spec [of _ 0])
  ultimately show ?thesis using b new by simp
qed

end
